theory Spec2Isabelle
  imports Main "HOL-Library.AList"
begin

section \<open>Values, errors and field maps\<close>

text \<open>
  Go's \<^verbatim>\<open>interface{}\<close> values that can be stored in a field map. An \<^verbatim>\<open>error\<close> is
  either a non-nil \<^verbatim>\<open>*errors.Error\<close> of the error wrapper (with its \<^verbatim>\<open>Name\<close>, its attached
  \<^verbatim>\<open>Fields\<close>, read here by their contents, and the stack trace its \<^verbatim>\<open>Stack()\<close> method
  returns) or any other error, known by its message.
\<close>

datatype val = VNil | VString string | VInt int | VBool bool | VError error
and error =
    StructuredError (Name: string) (Fields: "(string \<times> val) list") (Stack: string)
  | OtherError string

text \<open>
  \<^verbatim>\<open>type Fields map[string]interface{}\<close>: the contents of a map are an association list
  with one pair for each key; \<^verbatim>\<open>m[k] = v\<close> is \<^const>\<open>AList.update\<close> and \<^verbatim>\<open>range m\<close>
  visits the pairs of the list.
\<close>

type_synonym Fields = "(string \<times> val) list"

text \<open>
  Maps are reference values: a map lives in a store at an address, a variable of type
  \<^verbatim>\<open>Fields\<close> holds the address or nil (\<open>None\<close>), and \<^verbatim>\<open>make\<close> and map literals allocate a
  fresh address.
\<close>

type_synonym heap = "Fields list"

definition make_Fields :: "heap \<Rightarrow> nat \<times> heap" where
  "make_Fields h = (length h, h @ [[]])"

definition map_store :: "nat \<Rightarrow> string \<Rightarrow> val \<Rightarrow> heap \<Rightarrow> heap" where
  "map_store a k v h = h[a := AList.update k v (h ! a)]"

definition range_of :: "nat option \<Rightarrow> heap \<Rightarrow> Fields" where
  "range_of r h = (case r of None \<Rightarrow> [] | Some a \<Rightarrow> h ! a)"

definition allocated :: "heap \<Rightarrow> nat option \<Rightarrow> bool" where
  "allocated h r = (case r of None \<Rightarrow> True | Some a \<Rightarrow> a < length h)"

text \<open>\<^verbatim>\<open>for k, v := range src { dst[k] = v }\<close> over the pairs of \<open>src\<close>.\<close>

fun copy_into :: "nat \<Rightarrow> Fields \<Rightarrow> heap \<Rightarrow> heap" where
  "copy_into dst [] h = h"
| "copy_into dst ((k, v) # kvs) h = copy_into dst kvs (map_store dst k v h)"

section \<open>Entries\<close>

definition ErrorKey :: string where "ErrorKey = ''error''"
definition StacktraceKey :: string where "StacktraceKey = ''stacktrace''"
definition ModuleNameKey :: string where "ModuleNameKey = ''module''"
definition DefaultModuleName :: string where "DefaultModuleName = ''''"

text \<open>
  \<^verbatim>\<open>type Entry struct\<close>. \<open>Logger\<close> is the address of the logger, \<open>Data\<close> the address of the
  field map (or nil), \<open>Buffer\<close> the buffer attached while the formatter runs (or nil).
\<close>

record Entry =
  Logger :: nat
  Data :: "nat option"
  Time :: nat
  Level :: nat
  Message :: string
  Buffer :: "nat option"

text \<open>\<^verbatim>\<open>&Entry{Logger: l, Data: d}\<close>: the other fields hold their zero values.\<close>

definition Entry_lit :: "nat \<Rightarrow> nat option \<Rightarrow> Entry" where
  "Entry_lit l d = \<lparr>Logger = l, Data = d, Time = 0, Level = 0, Message = [], Buffer = None\<rparr>"

definition NewEntry :: "nat \<Rightarrow> heap \<Rightarrow> Entry \<times> heap" where
  "NewEntry logger h = (let (d, h1) = make_Fields h in (Entry_lit logger (Some d), h1))"

definition WithFields :: "Entry \<Rightarrow> nat option \<Rightarrow> heap \<Rightarrow> Entry \<times> heap" where
  "WithFields entry flds h =
     (let (data, h1) = make_Fields h;
          h2 = copy_into data (range_of (Data entry) h1) h1;
          h3 = copy_into data (range_of flds h2) h2
      in (Entry_lit (Logger entry) (Some data), h3))"

definition WithField :: "Entry \<Rightarrow> string \<Rightarrow> val \<Rightarrow> heap \<Rightarrow> Entry \<times> heap" where
  "WithField entry key value h =
     (let (lit, h1) = make_Fields h;
          h2 = map_store lit key value h1
      in WithFields entry (Some lit) h2)"

section \<open>Libraries outside the repository\<close>

text \<open>
  The functions of \<^verbatim>\<open>fmt\<close>, \<^verbatim>\<open>spew\<close> and \<^verbatim>\<open>errors\<close> that the entry calls are
  parameters. \<open>fmt_Sprintf_v\<close> is \<^verbatim>\<open>fmt.Sprintf("%v", val)\<close>; \<^verbatim>\<open>spew.Fdump\<close> writes to its
  buffer the string \<^verbatim>\<open>spew.Sdump\<close> returns, so \<open>spew_Sdump\<close> stands for both;
  \<open>errors_Stack skip frames\<close> is \<^verbatim>\<open>errors.Stack(skip)\<close> called while the functions \<open>frames\<close>
  are active, innermost first.
\<close>

record ext =
  fmt_Sprintf_v :: "val \<Rightarrow> string"
  fmt_Sprintf :: "string \<Rightarrow> val list \<Rightarrow> string"
  spew_Sdump :: "val list \<Rightarrow> string"
  spew_Sprintf :: "string \<Rightarrow> val list \<Rightarrow> string"
  errors_Stack :: "nat \<Rightarrow> string list \<Rightarrow> string"

section \<open>Panics\<close>

text \<open>
  What a panic carries: the entry (\<^verbatim>\<open>panic(&entry)\<close> in \<^verbatim>\<open>log\<close>), a string
  (\<^verbatim>\<open>panic(spew.Sdump(args...))\<close> in \<^verbatim>\<open>Panic\<close>), or a run-time error (a failed type
  assertion, an index out of range).
\<close>

datatype payload = PanicEntry Entry | PanicString string | RuntimeError string

definition index :: "val list \<Rightarrow> nat \<Rightarrow> payload + val" where
  "index xs i = (if i < length xs then Inr (xs ! i) else Inl (RuntimeError ''index out of range''))"

section \<open>Building entries\<close>

definition withStack :: "Entry \<Rightarrow> string \<Rightarrow> heap \<Rightarrow> Entry \<times> heap" where
  "withStack entry trace h = WithField entry StacktraceKey (VString trace) h"

definition WithStack :: "ext \<Rightarrow> string list \<Rightarrow> Entry \<Rightarrow> heap \<Rightarrow> Entry \<times> heap" where
  "WithStack x callers entry h = withStack entry (errors_Stack x 1 (''WithStack'' # callers)) h"

text \<open>
  \<^verbatim>\<open>WithError\<close>: the type switch on \<open>err\<close>, where \<open>None\<close> is the nil error (it takes the
  default branch and is stored as nil). \<open>callers\<close> are the functions active when \<^verbatim>\<open>WithError\<close>
  is called.
\<close>

definition err_val :: "error option \<Rightarrow> val" where
  "err_val err = (case err of None \<Rightarrow> VNil | Some e \<Rightarrow> VError e)"

definition WithError :: "ext \<Rightarrow> string list \<Rightarrow> Entry \<Rightarrow> error option \<Rightarrow> heap \<Rightarrow> Entry \<times> heap" where
  "WithError x callers entry err h =
     (case err of
        Some (StructuredError name attached captured) \<Rightarrow>
          (let (flds, h1) = make_Fields h;
               h2 = map_store flds ErrorKey (err_val err) h1;
               h3 = map_store flds StacktraceKey (VString captured) h2;
               h4 = (if name \<noteq> [] then map_store flds ModuleNameKey (VString name) h3 else h3);
               h5 = copy_into flds attached h4
           in WithFields entry (Some flds) h5)
      | _ \<Rightarrow>
          (let (flds, h1) = make_Fields h;
               h2 = map_store flds ErrorKey (err_val err) h1;
               h3 = map_store flds StacktraceKey
                      (VString (errors_Stack x 2 (''WithError'' # callers))) h2
           in WithFields entry (Some flds) h3))"

definition stringify :: "ext \<Rightarrow> val \<Rightarrow> string" where
  "stringify x v = (case v of VString k \<Rightarrow> k | _ \<Rightarrow> fmt_Sprintf_v x v)"

text \<open>The loop \<^verbatim>\<open>for i := 0; i < n; i += 2\<close> of \<^verbatim>\<open>With\<close>.\<close>

function With_loop :: "ext \<Rightarrow> nat \<Rightarrow> val list \<Rightarrow> nat \<Rightarrow> nat \<Rightarrow> heap \<Rightarrow> payload + heap" where
  "With_loop x flds extras n i h =
     (if i < n then
        (case index extras i of
           Inl p \<Rightarrow> Inl p
         | Inr k \<Rightarrow>
            (case index extras (i + 1) of
               Inl p \<Rightarrow> Inl p
             | Inr v \<Rightarrow> With_loop x flds extras n (i + 2) (map_store flds (stringify x k) v h)))
      else Inr h)"
  by pat_completeness auto
termination
  by (relation "measure (\<lambda>(x, flds, extras, n, i, h). n - i)") auto

declare With_loop.simps [simp del]

definition With :: "ext \<Rightarrow> Entry \<Rightarrow> string \<Rightarrow> val \<Rightarrow> val list \<Rightarrow> heap \<Rightarrow> payload + Entry \<times> heap" where
  "With x entry key value extras h =
     (let (flds, h1) = make_Fields h;
          h2 = map_store flds key value h1;
          n = length extras;
          n = (if n mod 2 \<noteq> 0 then n - 1 else n)
      in case With_loop x flds extras n 0 h2 of
           Inl p \<Rightarrow> Inl p
         | Inr h3 \<Rightarrow>
            (if n < length extras then
               (case index extras n of
                  Inl p \<Rightarrow> Inl p
                | Inr k \<Rightarrow>
                    Inr (WithFields entry (Some flds) (map_store flds (stringify x k) VNil h3)))
             else Inr (WithFields entry (Some flds) h3)))"

definition WithModule :: "Entry \<Rightarrow> string \<Rightarrow> heap \<Rightarrow> Entry \<times> heap" where
  "WithModule entry moduleName h = WithField entry ModuleNameKey (VString moduleName) h"

section \<open>Levels and the logger\<close>

text \<open>
  Modelled from the spec: the \<^verbatim>\<open>Level\<close> type and its constants are declared outside the
  entry's file. The severities are, from most to least severe, Panic, Fatal, Error, Warn,
  Info, Debug, Trace; the entry compares them as unsigned numbers with \<^verbatim>\<open>PanicLevel\<close> the
  least (\<^verbatim>\<open>level <= PanicLevel\<close> selects the panic).
\<close>

type_synonym Level = nat

definition PanicLevel :: Level where "PanicLevel = 0"
definition FatalLevel :: Level where "FatalLevel = 1"
definition ErrorLevel :: Level where "ErrorLevel = 2"
definition WarnLevel :: Level where "WarnLevel = 3"
definition InfoLevel :: Level where "InfoLevel = 4"
definition DebugLevel :: Level where "DebugLevel = 5"
definition TraceLevel :: Level where "TraceLevel = 6"

text \<open>
  The logger an entry points to, as far as the entry uses it. \<open>Hooks\<close> is
  \<^verbatim>\<open>Hooks.Fire(level, &entry)\<close> and \<open>Formatter\<close> is \<^verbatim>\<open>Formatter.Format(&entry)\<close>: both receive
  the entry by reference and may change it and the field maps, and return an error or nil
  (\<open>None\<close>), the formatter also the serialized bytes. \<open>Out\<close> is the error \<^verbatim>\<open>Out.Write\<close>
  returns for the given bytes. \<open>level\<close> is the method \<^verbatim>\<open>Logger.level\<close>, declared outside the
  entry's file: the minimum severity of a module.
\<close>

record Logger =
  Out :: "string \<Rightarrow> string option"
  Hooks :: "Level \<Rightarrow> Entry \<Rightarrow> heap \<Rightarrow> string option \<times> Entry \<times> heap"
  Formatter :: "Entry \<Rightarrow> heap \<Rightarrow> (string + string) \<times> Entry \<times> heap"
  level :: "string \<Rightarrow> Level"

text \<open>
  Modelled from the spec: the level registry behind \<^verbatim>\<open>Logger.level\<close> is declared outside
  the entry's file. It maps a module name to its minimum severity. A lookup never fails: a
  module without a level of its own resolves to the wildcard (\<open>*\<close>) entry, and without a
  wildcard to a baseline.
\<close>

definition registry_level :: "(string \<times> Level) list \<Rightarrow> Level \<Rightarrow> string \<Rightarrow> Level" where
  "registry_level registry baseline moduleName =
     (case map_of registry moduleName of
        Some lv \<Rightarrow> lv
      | None \<Rightarrow> (case map_of registry ''*'' of Some lv \<Rightarrow> lv | None \<Rightarrow> baseline))"

section \<open>The world of a logging call\<close>

text \<open>
  What a logging call does is recorded in order: taking and releasing a logger's mutex,
  a line on \<^verbatim>\<open>os.Stderr\<close>, firing the hooks, taking, resetting and returning a pooled buffer,
  calling the formatter, writing bytes to a logger's output, leaving the process, and the
  start of a panic.
\<close>

datatype event =
    EvLock nat
  | EvUnlock nat
  | EvStderr string
  | EvFire Level
  | EvGet nat
  | EvReset nat
  | EvPut nat
  | EvFormat
  | EvWrite nat string
  | EvExit nat
  | EvPanic

text \<open>
  The state around a call: the field maps, the loggers by address, the buffer pool (the
  buffers it holds, the next buffer \<^verbatim>\<open>New\<close> makes, and the number of buffers taken and not
  yet returned), the clock and the events so far.
\<close>

record world =
  fields_heap :: heap
  loggers :: "nat \<Rightarrow> Logger"
  pool_free :: "nat list"
  pool_new :: nat
  pool_out :: int
  clock :: nat
  events :: "event list"

datatype outcome = Returned | Exited nat | Panicked payload

definition emit :: "event list \<Rightarrow> world \<Rightarrow> world" where
  "emit evs w = w\<lparr>events := events w @ evs\<rparr>"

definition bufferPool_Get :: "world \<Rightarrow> nat \<times> world" where
  "bufferPool_Get w =
     (case pool_free w of
        [] \<Rightarrow> (pool_new w,
               emit [EvGet (pool_new w)] (w\<lparr>pool_new := Suc (pool_new w), pool_out := pool_out w + 1\<rparr>))
      | b # bs \<Rightarrow> (b, emit [EvGet b] (w\<lparr>pool_free := bs, pool_out := pool_out w + 1\<rparr>)))"

definition bufferPool_Put :: "nat \<Rightarrow> world \<Rightarrow> world" where
  "bufferPool_Put b w = emit [EvPut b] (w\<lparr>pool_free := b # pool_free w, pool_out := pool_out w - 1\<rparr>)"

definition panic :: "payload \<Rightarrow> world \<Rightarrow> outcome \<times> world" where
  "panic p w = (Panicked p, emit [EvPanic] w)"

text \<open>
  Modelled from the spec: \<^verbatim>\<open>Exit\<close> is declared outside the entry's file. The process exits
  with the given status code.
\<close>

definition Exit :: "nat \<Rightarrow> world \<Rightarrow> outcome \<times> world" where
  "Exit code w = (Exited code, emit [EvExit code] w)"

definition newline :: string where
  "newline = [CHR 0x0A]"

section \<open>The severity gate and the emission\<close>

definition matchLevel :: "Entry \<Rightarrow> Level \<Rightarrow> world \<Rightarrow> payload + bool" where
  "matchLevel entry lv w =
     (case (case Data entry of
              None \<Rightarrow> Inr DefaultModuleName
            | Some d \<Rightarrow>
               (case map_of (fields_heap w ! d) ModuleNameKey of
                  None \<Rightarrow> Inr DefaultModuleName
                | Some (VString name) \<Rightarrow> Inr name
                | Some _ \<Rightarrow> Inl (RuntimeError ''interface conversion: interface {} is not string''))) of
        Inl p \<Rightarrow> Inl p
      | Inr moduleName \<Rightarrow> Inr (level (loggers w (Logger entry)) moduleName \<ge> lv))"

definition Hooks_Fire :: "Level \<Rightarrow> Entry \<Rightarrow> world \<Rightarrow> string option \<times> Entry \<times> world" where
  "Hooks_Fire lv entry w =
     (let (err, entry', h) = Hooks (loggers w (Logger entry)) lv entry (fields_heap w)
      in (err, entry', emit [EvFire lv] (w\<lparr>fields_heap := h\<rparr>)))"

definition Formatter_Format :: "Entry \<Rightarrow> world \<Rightarrow> (string + string) \<times> Entry \<times> world" where
  "Formatter_Format entry w =
     (let (res, entry', h) = Formatter (loggers w (Logger entry)) entry (fields_heap w)
      in (res, entry', emit [EvFormat] (w\<lparr>fields_heap := h\<rparr>)))"

text \<open>
  \<^verbatim>\<open>log\<close> takes the entry by value. The deferred \<^verbatim>\<open>bufferPool.Put(buffer)\<close> runs when the
  function is left, by its return or by the panic.
\<close>

definition log :: "Entry \<Rightarrow> Level \<Rightarrow> string \<Rightarrow> world \<Rightarrow> outcome \<times> world" where
  "log entry0 lv msg w0 =
     (let entry1 = entry0\<lparr>Time := clock w0, Level := lv, Message := msg\<rparr>;
          (herr, entry2, w1) = Hooks_Fire lv entry1 w0;
          w2 = (case herr of
                  Some e \<Rightarrow> emit [EvLock (Logger entry2),
                                   EvStderr (''Failed to fire hook: '' @ e @ newline),
                                   EvUnlock (Logger entry2)] w1
                | None \<Rightarrow> w1);
          (buffer, w3) = bufferPool_Get w2;
          w4 = emit [EvReset buffer] w3;
          entry3 = entry2\<lparr>Buffer := Some buffer\<rparr>;
          (res, entry4, w5) = Formatter_Format entry3 w4;
          entry5 = entry4\<lparr>Buffer := None\<rparr>;
          w6 = (case res of
                  Inl e \<Rightarrow> emit [EvLock (Logger entry5),
                                  EvStderr (''Failed to obtain reader, '' @ e @ newline),
                                  EvUnlock (Logger entry5)] w5
                | Inr serialized \<Rightarrow>
                   (case Out (loggers w5 (Logger entry5)) serialized of
                      Some e \<Rightarrow> emit [EvLock (Logger entry5),
                                      EvWrite (Logger entry5) serialized,
                                      EvStderr (''Failed to write to log, '' @ e @ newline),
                                      EvUnlock (Logger entry5)] w5
                    | None \<Rightarrow> emit [EvLock (Logger entry5),
                                    EvWrite (Logger entry5) serialized,
                                    EvUnlock (Logger entry5)] w5))
      in if lv \<le> PanicLevel
         then (case panic (PanicEntry entry5) w6 of (out, w7) \<Rightarrow> (out, bufferPool_Put buffer w7))
         else (Returned, bufferPool_Put buffer w6))"

section \<open>The logging methods\<close>

text \<open>
  \<^verbatim>\<open>if entry.matchLevel(lv) { body }\<close>, and the statements after a call: they run when
  the call returns, and not when it leaves the process or panics.
\<close>

definition if_matchLevel :: "Entry \<Rightarrow> Level \<Rightarrow> (world \<Rightarrow> outcome \<times> world) \<Rightarrow> world \<Rightarrow> outcome \<times> world" where
  "if_matchLevel entry lv body w =
     (case matchLevel entry lv w of
        Inl p \<Rightarrow> panic p w
      | Inr ok \<Rightarrow> if ok then body w else (Returned, w))"

definition and_then :: "outcome \<times> world \<Rightarrow> (world \<Rightarrow> outcome \<times> world) \<Rightarrow> outcome \<times> world" where
  "and_then r k = (case r of (Returned, w) \<Rightarrow> k w | _ \<Rightarrow> r)"

definition Trace :: "ext \<Rightarrow> Entry \<Rightarrow> val list \<Rightarrow> world \<Rightarrow> outcome \<times> world" where
  "Trace x entry args = if_matchLevel entry TraceLevel (log entry TraceLevel (spew_Sdump x args))"

definition Debug :: "ext \<Rightarrow> Entry \<Rightarrow> val list \<Rightarrow> world \<Rightarrow> outcome \<times> world" where
  "Debug x entry args = if_matchLevel entry DebugLevel (log entry DebugLevel (spew_Sdump x args))"

definition Info :: "ext \<Rightarrow> Entry \<Rightarrow> val list \<Rightarrow> world \<Rightarrow> outcome \<times> world" where
  "Info x entry args = if_matchLevel entry InfoLevel (log entry InfoLevel (spew_Sdump x args))"

definition Print :: "ext \<Rightarrow> Entry \<Rightarrow> val list \<Rightarrow> world \<Rightarrow> outcome \<times> world" where
  "Print x entry args = Info x entry args"

definition Warn :: "ext \<Rightarrow> Entry \<Rightarrow> val list \<Rightarrow> world \<Rightarrow> outcome \<times> world" where
  "Warn x entry args = if_matchLevel entry WarnLevel (log entry WarnLevel (spew_Sdump x args))"

definition Warning :: "ext \<Rightarrow> Entry \<Rightarrow> val list \<Rightarrow> world \<Rightarrow> outcome \<times> world" where
  "Warning x entry args = Warn x entry args"

definition Error :: "ext \<Rightarrow> Entry \<Rightarrow> val list \<Rightarrow> world \<Rightarrow> outcome \<times> world" where
  "Error x entry args = if_matchLevel entry ErrorLevel (log entry ErrorLevel (spew_Sdump x args))"

definition Fatal :: "ext \<Rightarrow> Entry \<Rightarrow> val list \<Rightarrow> world \<Rightarrow> outcome \<times> world" where
  "Fatal x entry args w =
     and_then (if_matchLevel entry FatalLevel (log entry FatalLevel (spew_Sdump x args)) w) (Exit 1)"

definition Panic :: "ext \<Rightarrow> Entry \<Rightarrow> val list \<Rightarrow> world \<Rightarrow> outcome \<times> world" where
  "Panic x entry args w =
     and_then (if_matchLevel entry PanicLevel (log entry PanicLevel (spew_Sdump x args)) w)
       (panic (PanicString (spew_Sdump x args)))"

subsection \<open>The Printf family\<close>

definition Tracef :: "ext \<Rightarrow> Entry \<Rightarrow> string \<Rightarrow> val list \<Rightarrow> world \<Rightarrow> outcome \<times> world" where
  "Tracef x entry format args =
     if_matchLevel entry TraceLevel (Trace x entry [VString (spew_Sprintf x format args)])"

definition Debugf :: "ext \<Rightarrow> Entry \<Rightarrow> string \<Rightarrow> val list \<Rightarrow> world \<Rightarrow> outcome \<times> world" where
  "Debugf x entry format args =
     if_matchLevel entry DebugLevel (Debug x entry [VString (fmt_Sprintf x format args)])"

definition Infof :: "ext \<Rightarrow> Entry \<Rightarrow> string \<Rightarrow> val list \<Rightarrow> world \<Rightarrow> outcome \<times> world" where
  "Infof x entry format args =
     if_matchLevel entry InfoLevel (Info x entry [VString (fmt_Sprintf x format args)])"

definition Printf :: "ext \<Rightarrow> Entry \<Rightarrow> string \<Rightarrow> val list \<Rightarrow> world \<Rightarrow> outcome \<times> world" where
  "Printf x entry format args = Infof x entry format args"

definition Warnf :: "ext \<Rightarrow> Entry \<Rightarrow> string \<Rightarrow> val list \<Rightarrow> world \<Rightarrow> outcome \<times> world" where
  "Warnf x entry format args =
     if_matchLevel entry WarnLevel (Warn x entry [VString (fmt_Sprintf x format args)])"

definition Warningf :: "ext \<Rightarrow> Entry \<Rightarrow> string \<Rightarrow> val list \<Rightarrow> world \<Rightarrow> outcome \<times> world" where
  "Warningf x entry format args = Warnf x entry format args"

definition Errorf :: "ext \<Rightarrow> Entry \<Rightarrow> string \<Rightarrow> val list \<Rightarrow> world \<Rightarrow> outcome \<times> world" where
  "Errorf x entry format args =
     if_matchLevel entry ErrorLevel (Error x entry [VString (fmt_Sprintf x format args)])"

definition Fatalf :: "ext \<Rightarrow> Entry \<Rightarrow> string \<Rightarrow> val list \<Rightarrow> world \<Rightarrow> outcome \<times> world" where
  "Fatalf x entry format args w =
     and_then (if_matchLevel entry FatalLevel (Fatal x entry [VString (fmt_Sprintf x format args)]) w)
       (Exit 1)"

definition Panicf :: "ext \<Rightarrow> Entry \<Rightarrow> string \<Rightarrow> val list \<Rightarrow> world \<Rightarrow> outcome \<times> world" where
  "Panicf x entry format args =
     if_matchLevel entry PanicLevel (Panic x entry [VString (fmt_Sprintf x format args)])"

subsection \<open>The Println family\<close>

text \<open>
  \<^verbatim>\<open>sprintlnn\<close> dumps the arguments, appends a newline and cuts the last byte off; it
  does not use its receiver.
\<close>

definition sprintlnn :: "ext \<Rightarrow> val list \<Rightarrow> string" where
  "sprintlnn x args = (let msg = spew_Sdump x args @ newline in take (length msg - 1) msg)"

definition Traceln :: "ext \<Rightarrow> Entry \<Rightarrow> val list \<Rightarrow> world \<Rightarrow> outcome \<times> world" where
  "Traceln x entry args = if_matchLevel entry TraceLevel (Trace x entry [VString (sprintlnn x args)])"

definition Debugln :: "ext \<Rightarrow> Entry \<Rightarrow> val list \<Rightarrow> world \<Rightarrow> outcome \<times> world" where
  "Debugln x entry args = if_matchLevel entry DebugLevel (Debug x entry [VString (sprintlnn x args)])"

definition Infoln :: "ext \<Rightarrow> Entry \<Rightarrow> val list \<Rightarrow> world \<Rightarrow> outcome \<times> world" where
  "Infoln x entry args = if_matchLevel entry InfoLevel (Info x entry [VString (sprintlnn x args)])"

definition Println :: "ext \<Rightarrow> Entry \<Rightarrow> val list \<Rightarrow> world \<Rightarrow> outcome \<times> world" where
  "Println x entry args = Infoln x entry args"

definition Warnln :: "ext \<Rightarrow> Entry \<Rightarrow> val list \<Rightarrow> world \<Rightarrow> outcome \<times> world" where
  "Warnln x entry args = if_matchLevel entry WarnLevel (Warn x entry [VString (sprintlnn x args)])"

definition Warningln :: "ext \<Rightarrow> Entry \<Rightarrow> val list \<Rightarrow> world \<Rightarrow> outcome \<times> world" where
  "Warningln x entry args = Warnln x entry args"

definition Errorln :: "ext \<Rightarrow> Entry \<Rightarrow> val list \<Rightarrow> world \<Rightarrow> outcome \<times> world" where
  "Errorln x entry args = if_matchLevel entry ErrorLevel (Error x entry [VString (sprintlnn x args)])"

definition Fatalln :: "ext \<Rightarrow> Entry \<Rightarrow> val list \<Rightarrow> world \<Rightarrow> outcome \<times> world" where
  "Fatalln x entry args w =
     and_then (if_matchLevel entry FatalLevel (Fatal x entry [VString (sprintlnn x args)]) w) (Exit 1)"

definition Panicln :: "ext \<Rightarrow> Entry \<Rightarrow> val list \<Rightarrow> world \<Rightarrow> outcome \<times> world" where
  "Panicln x entry args =
     if_matchLevel entry PanicLevel (Panic x entry [VString (sprintlnn x args)])"

section \<open>Every leveled logging call\<close>

text \<open>
  The logging methods by name, to speak of all of them at once: \<open>call m\<close> is the method
  \<open>m\<close> (the format string is used by the Printf family only), \<open>method_level m\<close> the severity
  it asks the severity gate for and logs at, and \<open>method_message m\<close> the message it hands to
  \<^verbatim>\<open>log\<close>.
\<close>

datatype logging_method =
    M_Trace | M_Debug | M_Info | M_Print | M_Warn | M_Warning | M_Error | M_Fatal | M_Panic
  | M_Tracef | M_Debugf | M_Infof | M_Printf | M_Warnf | M_Warningf | M_Errorf | M_Fatalf | M_Panicf
  | M_Traceln | M_Debugln | M_Infoln | M_Println | M_Warnln | M_Warningln | M_Errorln | M_Fatalln
  | M_Panicln

fun call :: "logging_method \<Rightarrow> ext \<Rightarrow> Entry \<Rightarrow> string \<Rightarrow> val list \<Rightarrow> world \<Rightarrow> outcome \<times> world" where
  "call M_Trace x e format args = Trace x e args"
| "call M_Debug x e format args = Debug x e args"
| "call M_Info x e format args = Info x e args"
| "call M_Print x e format args = Print x e args"
| "call M_Warn x e format args = Warn x e args"
| "call M_Warning x e format args = Warning x e args"
| "call M_Error x e format args = Error x e args"
| "call M_Fatal x e format args = Fatal x e args"
| "call M_Panic x e format args = Panic x e args"
| "call M_Tracef x e format args = Tracef x e format args"
| "call M_Debugf x e format args = Debugf x e format args"
| "call M_Infof x e format args = Infof x e format args"
| "call M_Printf x e format args = Printf x e format args"
| "call M_Warnf x e format args = Warnf x e format args"
| "call M_Warningf x e format args = Warningf x e format args"
| "call M_Errorf x e format args = Errorf x e format args"
| "call M_Fatalf x e format args = Fatalf x e format args"
| "call M_Panicf x e format args = Panicf x e format args"
| "call M_Traceln x e format args = Traceln x e args"
| "call M_Debugln x e format args = Debugln x e args"
| "call M_Infoln x e format args = Infoln x e args"
| "call M_Println x e format args = Println x e args"
| "call M_Warnln x e format args = Warnln x e args"
| "call M_Warningln x e format args = Warningln x e args"
| "call M_Errorln x e format args = Errorln x e args"
| "call M_Fatalln x e format args = Fatalln x e args"
| "call M_Panicln x e format args = Panicln x e args"

fun method_level :: "logging_method \<Rightarrow> Level" where
  "method_level M_Trace = TraceLevel"
| "method_level M_Tracef = TraceLevel"
| "method_level M_Traceln = TraceLevel"
| "method_level M_Debug = DebugLevel"
| "method_level M_Debugf = DebugLevel"
| "method_level M_Debugln = DebugLevel"
| "method_level M_Info = InfoLevel"
| "method_level M_Infof = InfoLevel"
| "method_level M_Infoln = InfoLevel"
| "method_level M_Print = InfoLevel"
| "method_level M_Printf = InfoLevel"
| "method_level M_Println = InfoLevel"
| "method_level M_Warn = WarnLevel"
| "method_level M_Warnf = WarnLevel"
| "method_level M_Warnln = WarnLevel"
| "method_level M_Warning = WarnLevel"
| "method_level M_Warningf = WarnLevel"
| "method_level M_Warningln = WarnLevel"
| "method_level M_Error = ErrorLevel"
| "method_level M_Errorf = ErrorLevel"
| "method_level M_Errorln = ErrorLevel"
| "method_level M_Fatal = FatalLevel"
| "method_level M_Fatalf = FatalLevel"
| "method_level M_Fatalln = FatalLevel"
| "method_level M_Panic = PanicLevel"
| "method_level M_Panicf = PanicLevel"
| "method_level M_Panicln = PanicLevel"

definition is_f :: "logging_method \<Rightarrow> bool" where
  "is_f m = (m \<in> {M_Debugf, M_Infof, M_Printf, M_Warnf, M_Warningf, M_Errorf, M_Fatalf, M_Panicf})"

definition is_ln :: "logging_method \<Rightarrow> bool" where
  "is_ln m = (m \<in> {M_Traceln, M_Debugln, M_Infoln, M_Println, M_Warnln, M_Warningln, M_Errorln,
                   M_Fatalln, M_Panicln})"

definition method_message :: "logging_method \<Rightarrow> ext \<Rightarrow> string \<Rightarrow> val list \<Rightarrow> string" where
  "method_message m x format args =
     (if m = M_Tracef then spew_Sdump x [VString (spew_Sprintf x format args)]
      else if is_f m then spew_Sdump x [VString (fmt_Sprintf x format args)]
      else if is_ln m then spew_Sdump x [VString (sprintlnn x args)]
      else spew_Sdump x args)"

text \<open>
  The module tag of an entry, the value under the module-name key of its field map if there
  is one, and the events a call added to the world.
\<close>

definition module_tag :: "Entry \<Rightarrow> world \<Rightarrow> val option" where
  "module_tag e w =
     (case Data e of None \<Rightarrow> None | Some d \<Rightarrow> map_of (fields_heap w ! d) ModuleNameKey)"

definition new_events :: "world \<Rightarrow> world \<Rightarrow> event list" where
  "new_events w w' = drop (length (events w)) (events w')"

section \<open>The pairs a call is asked to add\<close>

text \<open>
  What the trailing arguments of \<^verbatim>\<open>With\<close> are said to mean: consecutive key/value pairs,
  a last key without a value paired with nil, each key in its string form. This is the
  reading the loop of \<^verbatim>\<open>With\<close> is compared with.
\<close>

fun extras_pairs :: "val list \<Rightarrow> (val \<times> val) list" where
  "extras_pairs (k # v # rest) = (k, v) # extras_pairs rest"
| "extras_pairs [k] = [(k, VNil)]"
| "extras_pairs [] = []"

definition stored_pairs :: "ext \<Rightarrow> val list \<Rightarrow> Fields" where
  "stored_pairs x extras = map (\<lambda>(k, v). (stringify x k, v)) (extras_pairs extras)"

text \<open>
  What a structured error says about itself under the reserved keys: the error, the stack
  trace it captured, and its module name when it has one.
\<close>

definition reserved_fields :: "string \<Rightarrow> Fields \<Rightarrow> string \<Rightarrow> Fields" where
  "reserved_fields name attached captured =
     [(ErrorKey, VError (StructuredError name attached captured)), (StacktraceKey, VString captured)]
     @ (if name \<noteq> [] then [(ModuleNameKey, VString name)] else [])"

section \<open>What a call is expected to do\<close>

text \<open>
  The buffer the pool hands out next, and the events of one emission in the order of its
  steps: the hooks fire (a failure is reported on stderr under the mutex of the logger), a
  buffer is taken and reset, the formatter runs, then either its failure is reported or the
  bytes are written under the mutex (a failure of the write is reported inside), then a
  Panic-level emission starts its panic, and the buffer goes back to the pool.
\<close>

definition next_buffer :: "world \<Rightarrow> nat" where
  "next_buffer w = (case pool_free w of [] \<Rightarrow> pool_new w | b # bs \<Rightarrow> b)"

definition emission_events ::
  "Level \<Rightarrow> nat \<Rightarrow> string option \<Rightarrow> nat \<Rightarrow> nat \<Rightarrow> string + string \<Rightarrow> string option \<Rightarrow> event list" where
  "emission_events lv l1 herr b l2 res werr =
     [EvFire lv]
     @ (case herr of
          None \<Rightarrow> []
        | Some err \<Rightarrow> [EvLock l1, EvStderr (''Failed to fire hook: '' @ err @ newline), EvUnlock l1])
     @ [EvGet b, EvReset b, EvFormat]
     @ (case res of
          Inl err \<Rightarrow> [EvLock l2, EvStderr (''Failed to obtain reader, '' @ err @ newline), EvUnlock l2]
        | Inr bytes \<Rightarrow>
            [EvLock l2, EvWrite l2 bytes]
            @ (case werr of
                 None \<Rightarrow> []
               | Some err \<Rightarrow> [EvStderr (''Failed to write to log, '' @ err @ newline)])
            @ [EvUnlock l2])
     @ (if lv \<le> PanicLevel then [EvPanic] else [])
     @ [EvPut b]"

text \<open>
  What follows the emission in a logging method: the Fatal methods leave the process with
  status 1, \<^verbatim>\<open>Panic\<close> panics with the message, the others return.
\<close>

definition after_log :: "logging_method \<Rightarrow> ext \<Rightarrow> string \<Rightarrow> val list \<Rightarrow> world \<Rightarrow> outcome \<times> world" where
  "after_log m x format args =
     (if method_level m = FatalLevel then Exit 1
      else if method_level m = PanicLevel then panic (PanicString (method_message m x format args))
      else (\<lambda>w. (Returned, w)))"

text \<open>
  The effective module name of an entry: the module tag when it is a string, the default
  module name when there is no tag; there is none when the tag is not a string. A call
  emitted its record when the record reached the formatter.
\<close>

definition effective_module :: "Entry \<Rightarrow> world \<Rightarrow> string option" where
  "effective_module e w =
     (case module_tag e w of
        None \<Rightarrow> Some DefaultModuleName
      | Some (VString name) \<Rightarrow> Some name
      | Some _ \<Rightarrow> None)"

definition emitted :: "world \<Rightarrow> outcome \<times> world \<Rightarrow> bool" where
  "emitted w r = (EvFormat \<in> set (new_events w (snd r)))"

text \<open>Emissions one after the other, whatever the outcome of each.\<close>

fun log_all :: "(Entry \<times> Level \<times> string) list \<Rightarrow> world \<Rightarrow> world" where
  "log_all [] w = w"
| "log_all ((e, lv, msg) # rest) w = log_all rest (snd (log e lv msg w))"

section \<open>Sample inputs\<close>

text \<open>
  A store with two field maps, an entry on the first of them, and a logger whose hooks and
  formatter leave the entry alone: the formatter serializes the message, and the registry
  gives module \<open>foo\<close> the level Debug and every other module the level Info.
\<close>

definition sample_heap :: heap where
  "sample_heap = [[(''a'', VInt 0), (''n'', VBool True)], [(''a'', VInt 7), (''b'', VNil)]]"

definition sample_entry :: Entry where
  "sample_entry = Entry_lit 0 (Some 0)"

definition sample_logger :: Logger where
  "sample_logger =
     \<lparr>Out = (\<lambda>bytes. None),
      Hooks = (\<lambda>lv e h. (None, e, h)),
      Formatter = (\<lambda>e h. (Inr (Message e), e, h)),
      level = registry_level [(''foo'', DebugLevel), (''*'', InfoLevel)] ErrorLevel\<rparr>"

text \<open>
  A logger whose minimum severity is Panic for every module, and a logger whose hooks,
  formatter or output fail.
\<close>

definition quiet_logger :: Logger where
  "quiet_logger = sample_logger\<lparr>level := (\<lambda>moduleName. PanicLevel)\<rparr>"

definition failing_logger :: "bool \<Rightarrow> Logger" where
  "failing_logger format_fails =
     \<lparr>Out = (\<lambda>bytes. Some ''disk full''),
      Hooks = (\<lambda>lv e h. (Some ''hook down'', e, h)),
      Formatter = (\<lambda>e h. (if format_fails then Inl ''bad field'' else Inr (Message e), e, h)),
      level = (\<lambda>moduleName. TraceLevel)\<rparr>"

definition sample_world :: "heap \<Rightarrow> world" where
  "sample_world h =
     \<lparr>fields_heap = h,
      loggers = (\<lambda>a. if a = 0 then sample_logger else if a = 1 then quiet_logger
                     else failing_logger (a = 2)),
      pool_free = [], pool_new = 0, pool_out = 0, clock = 0, events = []\<rparr>"

text \<open>
  A store with entries tagged with the modules \<open>foo\<close> and \<open>bar\<close>, an entry without a tag and
  an entry whose tag is a number.
\<close>

definition tagged_heap :: heap where
  "tagged_heap = [[(''module'', VString ''foo'')], [(''module'', VString ''bar'')], [(''a'', VInt 1)],
                  [(''module'', VInt 5)]]"

definition sample_ext :: ext where
  "sample_ext =
     \<lparr>fmt_Sprintf_v = (\<lambda>v. ''?''),
      fmt_Sprintf = (\<lambda>format args. format),
      spew_Sdump = (\<lambda>args. concat (map (\<lambda>v. case v of VString s \<Rightarrow> s | _ \<Rightarrow> ''?'') args)),
      spew_Sprintf = (\<lambda>format args. format),
      errors_Stack = (\<lambda>skip frames. concat (drop (skip - 1) frames))\<rparr>"

text \<open>
  Two structured errors: one with an attached field of its own, one whose attached fields
  use the reserved keys.
\<close>

definition sample_error :: error where
  "sample_error = StructuredError ''db'' [(''path'', VString ''/tmp'')] ''trace''"

definition shadowing_error :: error where
  "shadowing_error =
     StructuredError ''db'' [(''path'', VString ''/tmp''), (''error'', VString ''shadow''),
                             (''module'', VInt 5)] ''trace''"

section \<open>Copying field maps\<close>

lemma length_map_store [simp]: "length (map_store a k v h) = length h"
  by (simp add: map_store_def)

lemma length_copy_into [simp]: "length (copy_into d kvs h) = length h"
  by (induction d kvs h rule: copy_into.induct) simp_all

lemma map_store_other: "b \<noteq> a \<Longrightarrow> map_store a k v h ! b = h ! b"
  by (simp add: map_store_def)

lemma map_store_same:
  "a < length h \<Longrightarrow> map_store a k v h ! a = AList.update k v (h ! a)"
  by (simp add: map_store_def)

lemma copy_into_other: "b \<noteq> d \<Longrightarrow> copy_into d kvs h ! b = h ! b"
  by (induction d kvs h rule: copy_into.induct) (simp_all add: map_store_other)

lemma copy_into_map_of:
  "d < length h \<Longrightarrow> map_of (copy_into d kvs h ! d) = map_of (h ! d) ++ map_of (rev kvs)"
proof (induction d kvs h rule: copy_into.induct)
  case (1 dst h)
  then show ?case by simp
next
  case (2 dst k v kvs h)
  have "map_of (copy_into dst kvs (map_store dst k v h) ! dst)
        = map_of (map_store dst k v h ! dst) ++ map_of (rev kvs)"
    using 2 by simp
  also have "\<dots> = (map_of (h ! dst))(k \<mapsto> v) ++ map_of (rev kvs)"
    using 2(2) by (simp add: map_store_same update_conv')
  also have "\<dots> = map_of (h ! dst) ++ map_of (rev ((k, v) # kvs))"
    by (simp add: map_add_upd_left fun_eq_iff map_add_def split: option.splits)
  finally show ?case by simp
qed

lemma map_of_rev_distinct: "distinct (map fst kvs) \<Longrightarrow> map_of (rev kvs) = map_of kvs"
  by (rule map_of_inject_set[THEN iffD2]) (simp_all add: rev_map[symmetric])

lemma copy_into_distinct:
  "d < length h \<Longrightarrow> distinct (map fst (h ! d)) \<Longrightarrow> distinct (map fst (copy_into d kvs h ! d))"
  by (induction d kvs h rule: copy_into.induct) (simp_all add: map_store_same distinct_update)

lemma take_copy_into: "n \<le> d \<Longrightarrow> take n (copy_into d kvs h) = take n h"
  by (induction d kvs h rule: copy_into.induct) (simp_all add: map_store_def)

lemma range_of_extend: "allocated h r \<Longrightarrow> range_of r (h @ hs) = range_of r h"
  by (cases r) (simp_all add: range_of_def allocated_def nth_append)

lemma range_of_copy_into:
  "allocated h r \<Longrightarrow> length h \<le> d \<Longrightarrow> range_of r (copy_into d kvs (h @ hs)) = range_of r h"
  by (cases r) (simp_all add: range_of_def allocated_def copy_into_other nth_append)

lemma range_of_take:
  "allocated h r \<Longrightarrow> take (length h) h' = h \<Longrightarrow> range_of r h' = range_of r h"
  by (cases r) (auto simp: range_of_def allocated_def dest: arg_cong[where f = "\<lambda>xs. xs ! the r"])

lemma allocated_mono: "allocated h r \<Longrightarrow> length h \<le> length h' \<Longrightarrow> allocated h' r"
  by (cases r) (simp_all add: allocated_def)

subsection \<open>\<open>WithFields\<close> and \<open>WithField\<close>\<close>

lemma WithFields_entry: "fst (WithFields e f h) = Entry_lit (Logger e) (Some (length h))"
  by (simp add: WithFields_def make_Fields_def Let_def)

lemma WithFields_length: "length (snd (WithFields e f h)) = Suc (length h)"
  by (simp add: WithFields_def make_Fields_def Let_def)

lemma WithFields_old: "take (length h) (snd (WithFields e f h)) = h"
  by (simp add: WithFields_def make_Fields_def Let_def take_copy_into)

lemma WithFields_new_rev:
  assumes "allocated h (Data e)" and "allocated h f"
  shows "map_of (snd (WithFields e f h) ! length h)
         = map_of (rev (range_of (Data e) h)) ++ map_of (rev (range_of f h))"
proof -
  let ?d = "length h"
  let ?h1 = "h @ [[]]"
  let ?h2 = "copy_into ?d (range_of (Data e) h) ?h1"
  have r1: "range_of (Data e) ?h1 = range_of (Data e) h"
    using assms(1) by (rule range_of_extend)
  have r2: "range_of f ?h2 = range_of f h"
    using assms(2) by (simp add: range_of_copy_into)
  have "snd (WithFields e f h) = copy_into ?d (range_of f h) ?h2"
    by (simp add: WithFields_def make_Fields_def Let_def r1 r2)
  then have "map_of (snd (WithFields e f h) ! ?d)
             = map_of (?h2 ! ?d) ++ map_of (rev (range_of f h))"
    by (simp add: copy_into_map_of)
  also have "map_of (?h2 ! ?d) = map_of (?h1 ! ?d) ++ map_of (rev (range_of (Data e) h))"
    by (simp add: copy_into_map_of)
  finally show ?thesis by simp
qed

lemma WithFields_new:
  assumes "allocated h (Data e)" and "allocated h f"
    and "distinct (map fst (range_of (Data e) h))" and "distinct (map fst (range_of f h))"
  shows "map_of (snd (WithFields e f h) ! length h)
         = map_of (range_of (Data e) h) ++ map_of (range_of f h)"
  using WithFields_new_rev[OF assms(1,2)] assms(3,4) by (simp add: map_of_rev_distinct)

lemma WithFields_distinct: "distinct (map fst (snd (WithFields e f h) ! length h))"
  by (simp add: WithFields_def make_Fields_def Let_def copy_into_distinct)

lemma WithField_entry: "fst (WithField e k v h) = Entry_lit (Logger e) (Some (Suc (length h)))"
  by (simp add: WithField_def make_Fields_def Let_def WithFields_entry)

lemma WithField_length: "length (snd (WithField e k v h)) = Suc (Suc (length h))"
  by (simp add: WithField_def make_Fields_def Let_def WithFields_length)

lemma WithField_old: "take (length h) (snd (WithField e k v h)) = h"
proof -
  let ?h2 = "map_store (length h) k v (h @ [[]])"
  have "take (length ?h2) (snd (WithFields e (Some (length h)) ?h2)) = ?h2"
    by (rule WithFields_old)
  then have "take (length h) (take (length ?h2) (snd (WithFields e (Some (length h)) ?h2)))
             = take (length h) ?h2"
    by simp
  then show ?thesis
    by (simp add: WithField_def make_Fields_def Let_def map_store_def min_def)
qed

lemma WithField_new:
  assumes "allocated h (Data e)" and "distinct (map fst (range_of (Data e) h))"
  shows "map_of (snd (WithField e k v h) ! Suc (length h)) = (map_of (range_of (Data e) h))(k \<mapsto> v)"
proof -
  let ?h2 = "map_store (length h) k v (h @ [[]])"
  have lit: "range_of (Some (length h)) ?h2 = [(k, v)]"
    by (simp add: range_of_def map_store_def)
  have old: "range_of (Data e) ?h2 = range_of (Data e) h"
    using assms(1) by (intro range_of_take) (simp_all add: map_store_def)
  have "map_of (snd (WithFields e (Some (length h)) ?h2) ! length ?h2)
        = map_of (range_of (Data e) ?h2) ++ map_of (range_of (Some (length h)) ?h2)"
    using assms by (intro WithFields_new) (simp_all add: old lit allocated_mono, simp add: allocated_def)
  then show ?thesis
    by (simp add: WithField_def make_Fields_def Let_def old lit)
qed

subsection \<open>The loop of \<open>With\<close>\<close>

lemma copy_into_append: "copy_into d (ps @ qs) h = copy_into d qs (copy_into d ps h)"
  by (induction d ps h rule: copy_into.induct) simp_all

lemma extras_pairs_snoc:
  "even (length xs) \<Longrightarrow> extras_pairs (xs @ [k]) = extras_pairs xs @ [(k, VNil)]"
  by (induction xs rule: extras_pairs.induct) simp_all

lemma take_drop_two:
  assumes "Suc i < n" and "n \<le> length xs"
  shows "take (n - i) (drop i xs) = xs ! i # xs ! Suc i # take (n - (i + 2)) (drop (i + 2) xs)"
proof -
  have "drop i xs = xs ! i # xs ! Suc i # drop (i + 2) xs"
    using assms by (simp add: Cons_nth_drop_Suc)
  moreover have "n - i = Suc (Suc (n - (i + 2)))"
    using assms by simp
  ultimately show ?thesis by simp
qed

lemma With_loop_pairs:
  "even n \<Longrightarrow> even i \<Longrightarrow> i \<le> n \<Longrightarrow> n \<le> length extras \<Longrightarrow>
   With_loop x f extras n i h = Inr (copy_into f (stored_pairs x (take (n - i) (drop i extras))) h)"
proof (induction x f extras n i h rule: With_loop.induct)
  case (1 x flds extras n i h)
  show ?case
  proof (cases "i < n")
    case False
    then show ?thesis by (subst With_loop.simps) (simp add: stored_pairs_def)
  next
    case True
    with 1(2,3) have lt: "Suc i < n"
      by (metis Suc_lessI even_Suc)
    have idx: "index extras i = Inr (extras ! i)" "index extras (i + 1) = Inr (extras ! Suc i)"
      using lt 1(5) by (simp_all add: index_def)
    have "With_loop x flds extras n (i + 2) (map_store flds (stringify x (extras ! i)) (extras ! Suc i) h)
          = Inr (copy_into flds (stored_pairs x (take (n - (i + 2)) (drop (i + 2) extras)))
                  (map_store flds (stringify x (extras ! i)) (extras ! Suc i) h))"
      using 1(1)[OF True idx(1) idx(2)] 1(2,3,5) lt by simp
    then show ?thesis
      using True idx take_drop_two[OF lt 1(5)]
      by (subst With_loop.simps) (simp add: stored_pairs_def)
  qed
qed

lemma With_unfold:
  "With x e key value extras h =
     Inr (WithFields e (Some (length h))
           (copy_into (length h) ((key, value) # stored_pairs x extras) (h @ [[]])))"
proof (cases "even (length extras)")
  case True
  have "With_loop x (length h) extras (length extras) 0 h2
        = Inr (copy_into (length h) (stored_pairs x extras) h2)" for h2
    using With_loop_pairs[of "length extras" 0 extras x "length h" h2] True by simp
  with True show ?thesis
    by (simp add: With_def make_Fields_def Let_def even_iff_mod_2_eq_zero)
next
  case False
  then have pos: "0 < length extras" by (cases extras) simp_all
  let ?n = "length extras - Suc 0"
  from False pos have ev: "even ?n" by simp
  have "take (Suc ?n) extras = take ?n extras @ [extras ! ?n]"
    using pos by (intro take_Suc_conv_app_nth) simp
  moreover have "Suc ?n = length extras"
    using pos by simp
  ultimately have split: "extras = take ?n extras @ [extras ! ?n]"
    by (metis take_all order_refl)
  have "even (length (take ?n extras))"
    using ev by simp
  then have "extras_pairs (take ?n extras @ [extras ! ?n])
             = extras_pairs (take ?n extras) @ [(extras ! ?n, VNil)]"
    by (rule extras_pairs_snoc)
  with split have "extras_pairs extras = extras_pairs (take ?n extras) @ [(extras ! ?n, VNil)]"
    by simp
  then have sp: "stored_pairs x extras
                 = stored_pairs x (take ?n extras) @ [(stringify x (extras ! ?n), VNil)]"
    by (simp add: stored_pairs_def)
  have loop: "With_loop x (length h) extras ?n 0 h2
        = Inr (copy_into (length h) (stored_pairs x (take ?n extras)) h2)" for h2
    using With_loop_pairs[of ?n 0 extras x "length h" h2] ev by simp
  have odd: "length extras mod 2 \<noteq> 0"
    using False by (simp add: even_iff_mod_2_eq_zero)
  show ?thesis
    using pos by (simp add: With_def make_Fields_def Let_def odd loop index_def sp copy_into_append)
qed

subsection \<open>A fragment built in a fresh map and merged\<close>

lemma map_store_copy_into: "map_store d k v h = copy_into d [(k, v)] h"
  by simp

lemma fragment_length: "length (copy_into (length h) ps (h @ [[]])) = Suc (length h)"
  by simp

lemma fragment_old: "take (length h) (copy_into (length h) ps (h @ [[]])) = h"
  by (simp add: take_copy_into)

lemma fragment_map_of: "map_of (copy_into (length h) ps (h @ [[]]) ! length h) = map_of (rev ps)"
  by (simp add: copy_into_map_of)

lemma fragment_distinct: "distinct (map fst (copy_into (length h) ps (h @ [[]]) ! length h))"
  by (simp add: copy_into_distinct)

lemma WithFields_fragment:
  assumes "allocated h (Data e)" and "distinct (map fst (range_of (Data e) h))"
    and "length h2 = Suc (length h)" and "take (length h) h2 = h"
    and "distinct (map fst (h2 ! length h))"
  shows "fst (WithFields e (Some (length h)) h2) = Entry_lit (Logger e) (Some (Suc (length h)))"
    and "map_of (snd (WithFields e (Some (length h)) h2) ! Suc (length h))
         = map_of (range_of (Data e) h) ++ map_of (h2 ! length h)"
    and "take (length h) (snd (WithFields e (Some (length h)) h2)) = h"
    and "snd (WithFields e (Some (length h)) h2) ! length h = h2 ! length h"
proof -
  let ?W = "WithFields e (Some (length h)) h2"
  have a1: "allocated h2 (Data e)"
    using assms(1) by (rule allocated_mono) (simp add: assms(3))
  have a2: "allocated h2 (Some (length h))"
    by (simp add: allocated_def assms(3))
  have r1: "range_of (Data e) h2 = range_of (Data e) h"
    using assms(1,4) by (rule range_of_take)
  have r2: "range_of (Some (length h)) h2 = h2 ! length h"
    by (simp add: range_of_def)
  show "fst ?W = Entry_lit (Logger e) (Some (Suc (length h)))"
    by (simp add: WithFields_entry assms(3))
  have "map_of (snd ?W ! length h2) = map_of (range_of (Data e) h2) ++ map_of (range_of (Some (length h)) h2)"
    using a1 a2 assms(2,5) by (intro WithFields_new) (simp_all add: r1 r2)
  then show "map_of (snd ?W ! Suc (length h)) = map_of (range_of (Data e) h) ++ map_of (h2 ! length h)"
    by (simp add: r1 r2 assms(3))
  have old: "take (length h2) (snd ?W) = h2"
    by (rule WithFields_old)
  then have "take (length h) (take (length h2) (snd ?W)) = take (length h) h2"
    by simp
  then show "take (length h) (snd ?W) = h"
    by (simp add: assms(3,4) min_def)
  from old have "take (length h2) (snd ?W) ! length h = h2 ! length h"
    by simp
  then show "snd ?W ! length h = h2 ! length h"
    by (simp add: assms(3))
qed

lemma With_result:
  assumes "allocated h (Data e)" and "distinct (map fst (range_of (Data e) h))"
  shows "\<exists>h'. With x e key value extras h = Inr (Entry_lit (Logger e) (Some (Suc (length h))), h') \<and>
           map_of (h' ! Suc (length h))
             = map_of (range_of (Data e) h) ++ map_of (rev ((key, value) # stored_pairs x extras)) \<and>
           take (length h) h' = h"
proof -
  define h2 where "h2 = copy_into (length h) ((key, value) # stored_pairs x extras) (h @ [[]])"
  define W where "W = WithFields e (Some (length h)) h2"
  have h2: "length h2 = Suc (length h)" "take (length h) h2 = h" "distinct (map fst (h2 ! length h))"
    "map_of (h2 ! length h) = map_of (rev ((key, value) # stored_pairs x extras))"
    unfolding h2_def
    by (rule fragment_length fragment_old fragment_distinct fragment_map_of)+
  note frag = WithFields_fragment[OF assms h2(1,2,3), folded W_def]
  have "With x e key value extras h = Inr W"
    unfolding W_def h2_def by (rule With_unfold)
  then have "With x e key value extras h = Inr (Entry_lit (Logger e) (Some (Suc (length h))), snd W)"
    using frag(1) by (simp add: prod_eq_iff)
  moreover have "map_of (snd W ! Suc (length h))
      = map_of (range_of (Data e) h) ++ map_of (rev ((key, value) # stored_pairs x extras))"
    using frag(2) by (simp only: h2(4))
  ultimately show ?thesis
    using frag(3) by blast
qed

subsection \<open>\<open>WithError\<close>\<close>

lemma merge_fragment:
  fixes ps :: Fields
  assumes "allocated h (Data e)" and "distinct (map fst (range_of (Data e) h))"
  defines "W \<equiv> WithFields e (Some (length h)) (copy_into (length h) ps (h @ [[]]))"
  shows "fst W = Entry_lit (Logger e) (Some (Suc (length h)))"
    and "map_of (snd W ! length h) = map_of (rev ps)"
    and "map_of (snd W ! Suc (length h)) = map_of (range_of (Data e) h) ++ map_of (rev ps)"
    and "take (length h) (snd W) = h"
proof -
  define h2 where "h2 = copy_into (length h) ps (h @ [[]])"
  have h2: "length h2 = Suc (length h)" "take (length h) h2 = h" "distinct (map fst (h2 ! length h))"
    "map_of (h2 ! length h) = map_of (rev ps)"
    unfolding h2_def
    by (rule fragment_length fragment_old fragment_distinct fragment_map_of)+
  have W: "W = WithFields e (Some (length h)) h2"
    by (simp add: W_def h2_def)
  note frag = WithFields_fragment[OF assms(1,2) h2(1,2,3), folded W]
  show "fst W = Entry_lit (Logger e) (Some (Suc (length h)))"
    by (rule frag(1))
  show "map_of (snd W ! length h) = map_of (rev ps)"
    using frag(4) h2(4) by simp
  show "map_of (snd W ! Suc (length h)) = map_of (range_of (Data e) h) ++ map_of (rev ps)"
    using frag(2) by (simp only: h2(4))
  show "take (length h) (snd W) = h"
    by (rule frag(3))
qed

lemma WithError_structured:
  "WithError x callers e (Some (StructuredError name attached captured)) h =
     WithFields e (Some (length h))
       (copy_into (length h) (reserved_fields name attached captured @ attached) (h @ [[]]))"
  by (simp add: WithError_def make_Fields_def Let_def reserved_fields_def err_val_def copy_into_append)

lemma WithError_other:
  "err = None \<or> err = Some (OtherError msg) \<Longrightarrow>
   WithError x callers e err h =
     WithFields e (Some (length h))
       (copy_into (length h)
          [(ErrorKey, err_val err), (StacktraceKey, VString (errors_Stack x 2 (''WithError'' # callers)))]
          (h @ [[]]))"
  by (auto simp: WithError_def make_Fields_def Let_def)

lemma reserved_map:
  "map_of (rev (reserved_fields name attached captured)) =
     (if name = []
      then [ErrorKey \<mapsto> VError (StructuredError name attached captured), StacktraceKey \<mapsto> VString captured]
      else [ErrorKey \<mapsto> VError (StructuredError name attached captured), StacktraceKey \<mapsto> VString captured,
            ModuleNameKey \<mapsto> VString name])"
  by (auto simp: reserved_fields_def ErrorKey_def StacktraceKey_def ModuleNameKey_def fun_eq_iff)

subsection \<open>The emission and the severity gate\<close>

lemma log_trace:
  assumes H: "Hooks (loggers w (Logger e)) lv (e\<lparr>Time := clock w, Level := lv, Message := msg\<rparr>)
                (fields_heap w) = (herr, e1, hp1)"
    and F: "Formatter (loggers w (Logger e1)) (e1\<lparr>Buffer := Some (next_buffer w)\<rparr>) hp1 = (res, e2, hp2)"
  shows "log e lv msg w =
     (if lv \<le> PanicLevel then Panicked (PanicEntry (e2\<lparr>Buffer := None\<rparr>)) else Returned,
      w\<lparr>fields_heap := hp2,
        pool_free := next_buffer w # tl (pool_free w),
        pool_new := (if pool_free w = [] then Suc (pool_new w) else pool_new w),
        events := events w @ emission_events lv (Logger e1) herr (next_buffer w) (Logger e2) res
                    (case res of Inl err \<Rightarrow> None | Inr bytes \<Rightarrow> Out (loggers w (Logger e2)) bytes)\<rparr>)"
  using H F
  by (cases "pool_free w")
     (auto simp: log_def Let_def Hooks_Fire_def Formatter_Format_def bufferPool_Get_def bufferPool_Put_def
      emit_def panic_def next_buffer_def emission_events_def
      split: option.splits sum.splits)


lemmas level_defs = PanicLevel_def FatalLevel_def ErrorLevel_def WarnLevel_def InfoLevel_def
  DebugLevel_def TraceLevel_def

lemmas method_defs = Trace_def Debug_def Info_def Print_def Warn_def Warning_def Error_def Fatal_def
  Panic_def Tracef_def Debugf_def Infof_def Printf_def Warnf_def Warningf_def Errorf_def Fatalf_def
  Panicf_def Traceln_def Debugln_def Infoln_def Println_def Warnln_def Warningln_def Errorln_def
  Fatalln_def Panicln_def

lemma matchLevel_cases:
  "matchLevel e lv w =
     (case module_tag e w of
        None \<Rightarrow> Inr (lv \<le> level (loggers w (Logger e)) DefaultModuleName)
      | Some (VString name) \<Rightarrow> Inr (lv \<le> level (loggers w (Logger e)) name)
      | Some _ \<Rightarrow> Inl (RuntimeError ''interface conversion: interface {} is not string''))"
  by (simp add: matchLevel_def module_tag_def split: option.splits val.splits)

lemma matchLevel_PanicLevel: "matchLevel e PanicLevel w \<noteq> Inr False"
  by (simp add: matchLevel_cases PanicLevel_def split: option.splits val.splits)

lemma call_gate_error:
  "matchLevel e (method_level m) w = Inl p \<Longrightarrow> call m x e format args w = panic p w"
  by (cases m) (simp_all add: method_defs if_matchLevel_def and_then_def panic_def)

lemma call_gate_closed:
  assumes "matchLevel e (method_level m) w = Inr False"
  shows "call m x e format args w = (if method_level m = FatalLevel then Exit 1 w else (Returned, w))"
proof -
  have "method_level m \<noteq> PanicLevel"
    using assms matchLevel_PanicLevel by metis
  then show ?thesis
    using assms
    by (cases m) (simp_all add: method_defs if_matchLevel_def and_then_def Exit_def level_defs)
qed

lemma and_then_Exit_twice: "and_then (and_then r (Exit c)) (Exit c) = and_then r (Exit c)"
  by (simp add: and_then_def Exit_def split: prod.splits outcome.splits)

lemma call_gate_open:
  assumes "matchLevel e (method_level m) w = Inr True"
  shows "call m x e format args w =
           and_then (log e (method_level m) (method_message m x format args) w) (after_log m x format args)"
  using assms
  by (cases m)
     (simp_all add: method_defs if_matchLevel_def and_then_Exit_twice after_log_def method_message_def
        is_f_def is_ln_def level_defs,
      simp_all add: and_then_def split: prod.splits outcome.splits)

lemma new_events_append: "events w' = events w @ xs \<Longrightarrow> new_events w w' = xs"
  by (simp add: new_events_def)

lemma log_cases:
  obtains herr e1 hp1 res e2 hp2 where
    "Hooks (loggers w (Logger e)) lv (e\<lparr>Time := clock w, Level := lv, Message := msg\<rparr>)
       (fields_heap w) = (herr, e1, hp1)"
    and "Formatter (loggers w (Logger e1)) (e1\<lparr>Buffer := Some (next_buffer w)\<rparr>) hp1 = (res, e2, hp2)"
proof -
  obtain herr e1 hp1 where
    H: "Hooks (loggers w (Logger e)) lv (e\<lparr>Time := clock w, Level := lv, Message := msg\<rparr>)
          (fields_heap w) = (herr, e1, hp1)"
    by (rule prod_cases3)
  obtain res e2 hp2 where
    "Formatter (loggers w (Logger e1)) (e1\<lparr>Buffer := Some (next_buffer w)\<rparr>) hp1 = (res, e2, hp2)"
    by (rule prod_cases3)
  with H show thesis by (rule that)
qed

lemma log_pool_out: "pool_out (snd (log e lv msg w)) = pool_out w"
proof -
  obtain herr e1 hp1 res e2 hp2 where
    H: "Hooks (loggers w (Logger e)) lv (e\<lparr>Time := clock w, Level := lv, Message := msg\<rparr>)
          (fields_heap w) = (herr, e1, hp1)"
    and F: "Formatter (loggers w (Logger e1)) (e1\<lparr>Buffer := Some (next_buffer w)\<rparr>) hp1 = (res, e2, hp2)"
    by (rule log_cases)
  show ?thesis
    by (simp add: log_trace[OF H F])
qed

lemma log_events:
  "\<exists>l1 herr l2 res werr.
     events (snd (log e lv msg w)) = events w @ emission_events lv l1 herr (next_buffer w) l2 res werr"
proof -
  obtain herr e1 hp1 res e2 hp2 where
    H: "Hooks (loggers w (Logger e)) lv (e\<lparr>Time := clock w, Level := lv, Message := msg\<rparr>)
          (fields_heap w) = (herr, e1, hp1)"
    and F: "Formatter (loggers w (Logger e1)) (e1\<lparr>Buffer := Some (next_buffer w)\<rparr>) hp1 = (res, e2, hp2)"
    by (rule log_cases)
  show ?thesis
    by (simp add: log_trace[OF H F]) blast
qed

lemma emission_events_buffer:
  "\<exists>pre. emission_events lv l1 herr b l2 res werr = pre @ [EvPut b] \<and> EvGet b \<in> set pre \<and>
         EvPut b \<notin> set pre"
  by (simp add: emission_events_def split: option.splits sum.splits)

lemma call_pool_out: "pool_out (snd (call m x e format args w)) = pool_out w"
proof (cases "matchLevel e (method_level m) w")
  case (Inl p)
  then show ?thesis
    by (simp add: call_gate_error panic_def emit_def)
next
  case (Inr ok)
  show ?thesis
  proof (cases ok)
    case False
    with Inr show ?thesis
      by (simp add: call_gate_closed Exit_def emit_def)
  next
    case True
    with Inr have "call m x e format args w =
        and_then (log e (method_level m) (method_message m x format args) w) (after_log m x format args)"
      by (simp add: call_gate_open)
    moreover have "pool_out (snd (and_then r (after_log m x format args))) = pool_out (snd r)" for r
      by (simp add: and_then_def after_log_def Exit_def panic_def emit_def
          split: prod.splits outcome.splits)
    ultimately show ?thesis
      by (simp add: log_pool_out)
  qed
qed

lemma log_all_pool_out: "pool_out (log_all cs w) = pool_out w"
  by (induction cs w rule: log_all.induct) (simp_all add: log_pool_out)

lemma effective_module_gate:
  "effective_module e w = Some name \<Longrightarrow>
   matchLevel e lv w = Inr (lv \<le> level (loggers w (Logger e)) name)"
  by (auto simp: matchLevel_cases effective_module_def split: option.splits val.splits)

lemma effective_module_none:
  "effective_module e w = None \<longleftrightarrow> (\<exists>v. module_tag e w = Some v \<and> (\<forall>s. v \<noteq> VString s))"
  by (auto simp: effective_module_def split: option.splits val.splits)

lemma call_trace:
  assumes gate: "matchLevel e (method_level m) w = Inr True"
    and H: "Hooks (loggers w (Logger e)) (method_level m)
              (e\<lparr>Time := clock w, Level := method_level m, Message := method_message m x format args\<rparr>)
              (fields_heap w) = (herr, e1, hp1)"
    and F: "Formatter (loggers w (Logger e1)) (e1\<lparr>Buffer := Some (next_buffer w)\<rparr>) hp1 = (res, e2, hp2)"
  shows "fst (call m x e format args w) =
           (if method_level m = PanicLevel then Panicked (PanicEntry (e2\<lparr>Buffer := None\<rparr>))
            else if method_level m = FatalLevel then Exited 1 else Returned)"
    and "new_events w (snd (call m x e format args w)) =
           emission_events (method_level m) (Logger e1) herr (next_buffer w) (Logger e2) res
             (case res of Inl err \<Rightarrow> None | Inr bytes \<Rightarrow> Out (loggers w (Logger e2)) bytes)
           @ (if method_level m = FatalLevel then [EvExit 1] else [])"
  by (simp_all add: call_gate_open[OF gate] log_trace[OF H F] and_then_def after_log_def Exit_def
      panic_def emit_def new_events_def level_defs)

lemma emission_events_format: "EvFormat \<in> set (emission_events lv l1 herr b l2 res werr)"
  by (simp add: emission_events_def)

lemma emitted_iff:
  assumes "matchLevel e (method_level m) w = Inr ok"
  shows "emitted w (call m x e format args w) = ok"
proof (cases ok)
  case False
  with assms show ?thesis
    by (simp add: call_gate_closed emitted_def new_events_def Exit_def emit_def)
next
  case True
  obtain herr e1 hp1 res e2 hp2 where
    H: "Hooks (loggers w (Logger e)) (method_level m)
              (e\<lparr>Time := clock w, Level := method_level m, Message := method_message m x format args\<rparr>)
              (fields_heap w) = (herr, e1, hp1)"
    and F: "Formatter (loggers w (Logger e1)) (e1\<lparr>Buffer := Some (next_buffer w)\<rparr>) hp1 = (res, e2, hp2)"
    by (rule log_cases)
  from assms True have gate: "matchLevel e (method_level m) w = Inr True" by simp
  show ?thesis
    using True by (simp add: emitted_def call_trace(2)[OF gate H F] emission_events_format)
qed

lemma emission_terminal_last:
  "\<exists>body.
     emission_events lv l1 herr b l2 res werr
       = body @ (if lv \<le> PanicLevel then [EvPanic] else []) @ [EvPut b] \<and>
     (\<forall>ev \<in> set body. ev \<noteq> EvPanic \<and> (\<forall>c. ev \<noteq> EvExit c)) \<and>
     (\<forall>bytes. res = Inr bytes \<longrightarrow> EvWrite l2 bytes \<in> set body) \<and>
     (\<forall>err. res = Inl err \<longrightarrow> (\<forall>l bytes. EvWrite l bytes \<notin> set body))"
proof -
  let ?hook = "case herr of
          None \<Rightarrow> []
        | Some err \<Rightarrow> [EvLock l1, EvStderr (''Failed to fire hook: '' @ err @ newline), EvUnlock l1]"
  let ?out = "case res of
          Inl err \<Rightarrow> [EvLock l2, EvStderr (''Failed to obtain reader, '' @ err @ newline), EvUnlock l2]
        | Inr bytes \<Rightarrow>
            [EvLock l2, EvWrite l2 bytes]
            @ (case werr of
                 None \<Rightarrow> []
               | Some err \<Rightarrow> [EvStderr (''Failed to write to log, '' @ err @ newline)])
            @ [EvUnlock l2]"
  let ?body = "[EvFire lv] @ ?hook @ [EvGet b, EvReset b, EvFormat] @ ?out"
  have "emission_events lv l1 herr b l2 res werr
       = ?body @ (if lv \<le> PanicLevel then [EvPanic] else []) @ [EvPut b]"
    by (simp add: emission_events_def)
  moreover have "\<forall>ev \<in> set ?body. ev \<noteq> EvPanic \<and> (\<forall>c. ev \<noteq> EvExit c)"
    by (auto split: option.splits sum.splits)
  moreover have "\<forall>bytes. res = Inr bytes \<longrightarrow> EvWrite l2 bytes \<in> set ?body"
    by simp
  moreover have "\<forall>err. res = Inl err \<longrightarrow> (\<forall>l bytes. EvWrite l bytes \<notin> set ?body)"
    by (auto split: option.splits)
  ultimately show ?thesis by blast
qed

subsection \<open>A run of the pipeline\<close>

text \<open>
  A Fatal call on a logger whose hooks and output fail: both failures are reported on
  stderr, the bytes are written before the exit, and the buffer is back in the pool.
\<close>

lemma Fatal_sample:
  "Fatal sample_ext (Entry_lit 3 (Some 0)) [VString ''x''] (sample_world sample_heap)
   = (Exited 1,
      (sample_world sample_heap)
        \<lparr>pool_free := [0], pool_new := 1,
         events := [EvFire 1, EvLock 3, EvStderr (''Failed to fire hook: hook down'' @ newline),
                    EvUnlock 3, EvGet 0, EvReset 0, EvFormat, EvLock 3, EvWrite 3 ''x'',
                    EvStderr (''Failed to write to log, disk full'' @ newline), EvUnlock 3,
                    EvPut 0, EvExit 1]\<rparr>)"
  by (simp add: Fatal_def if_matchLevel_def matchLevel_def and_then_def Exit_def log_def Let_def
      Hooks_Fire_def Formatter_Format_def bufferPool_Get_def bufferPool_Put_def emit_def
      sample_world_def sample_heap_def Entry_lit_def failing_logger_def sample_ext_def
      ModuleNameKey_def level_defs)

section \<open>Claim C1: adding fields copies\<close>

text \<open>
  C1. For every entry \<open>e\<close> and every field map \<open>f\<close> (both in the store, each map with one
  pair for a key), \<open>WithFields e f\<close> returns a new entry with the logger of \<open>e\<close> whose \<open>Data\<close>
  is a fresh map: exactly the pairs of \<open>e\<close> and of \<open>f\<close>, those of \<open>f\<close> winning where the
  keys collide. Every map that was in the store before, the \<open>Data\<close> of \<open>e\<close> and the map \<open>f\<close>
  among them, is unchanged. \<open>WithField\<close> delegates to it with a one-pair map. In particular
  \<open>e.WithField("a", 1)\<close> and then \<open>e.WithField("a", 2)\<close> give two entries on two different
  maps, the first with \<open>a = 1\<close>, the second with \<open>a = 2\<close>, and the fields of \<open>e\<close> are what they
  were.
\<close>

theorem WithFields_copy_on_write:
  assumes "allocated h (Data e)" and "allocated h f"
    and "distinct (map fst (range_of (Data e) h))" and "distinct (map fst (range_of f h))"
  shows "(case WithFields e f h of (e', h') \<Rightarrow>
            Logger e' = Logger e \<and> Data e' = Some (length h) \<and>
            map_of (range_of (Data e') h') = map_of (range_of (Data e) h) ++ map_of (range_of f h) \<and>
            take (length h) h' = h \<and>
            range_of (Data e) h' = range_of (Data e) h \<and> range_of f h' = range_of f h) \<and>
         (case WithField e k v h of (e', h') \<Rightarrow>
            Logger e' = Logger e \<and> Data e' = Some (Suc (length h)) \<and>
            map_of (range_of (Data e') h') = (map_of (range_of (Data e) h))(k \<mapsto> v) \<and>
            take (length h) h' = h \<and>
            range_of (Data e) h' = range_of (Data e) h) \<and>
         (case WithField e ''a'' (VInt 1) h of (e1, h1) \<Rightarrow>
          case WithField e ''a'' (VInt 2) h1 of (e2, h2) \<Rightarrow>
            map_of (range_of (Data e1) h2) ''a'' = Some (VInt 1) \<and>
            map_of (range_of (Data e2) h2) ''a'' = Some (VInt 2) \<and>
            Data e1 \<noteq> Data e2 \<and> Data e1 \<noteq> Data e \<and> Data e2 \<noteq> Data e \<and>
            range_of (Data e) h2 = range_of (Data e) h)"
proof -
  have alloc_neq: "Data e \<noteq> Some n" if "length h \<le> n" for n
    using assms(1) that by (auto simp: allocated_def)
  have part1: "case WithFields e f h of (e', h') \<Rightarrow>
            Logger e' = Logger e \<and> Data e' = Some (length h) \<and>
            map_of (range_of (Data e') h') = map_of (range_of (Data e) h) ++ map_of (range_of f h) \<and>
            take (length h) h' = h \<and>
            range_of (Data e) h' = range_of (Data e) h \<and> range_of f h' = range_of f h"
    using WithFields_new[OF assms] range_of_take[OF assms(1) WithFields_old]
      range_of_take[OF assms(2) WithFields_old]
    by (simp add: case_prod_unfold WithFields_entry WithFields_old Entry_lit_def range_of_def)
  have part2: "case WithField e k v h of (e', h') \<Rightarrow>
            Logger e' = Logger e \<and> Data e' = Some (Suc (length h)) \<and>
            map_of (range_of (Data e') h') = (map_of (range_of (Data e) h))(k \<mapsto> v) \<and>
            take (length h) h' = h \<and>
            range_of (Data e) h' = range_of (Data e) h" for k v
    using WithField_new[OF assms(1,3)] range_of_take[OF assms(1) WithField_old]
    by (simp add: case_prod_unfold WithField_entry WithField_old Entry_lit_def range_of_def)
  let ?h1 = "snd (WithField e ''a'' (VInt 1) h)"
  let ?h2 = "snd (WithField e ''a'' (VInt 2) ?h1)"
  let ?d1 = "Suc (length h)"
  have keep1: "range_of (Data e) ?h1 = range_of (Data e) h"
    using range_of_take[OF assms(1) WithField_old] .
  have alloc1: "allocated ?h1 (Data e)"
    using assms(1) by (rule allocated_mono) (simp add: WithField_length)
  have first: "map_of (?h1 ! ?d1) = (map_of (range_of (Data e) h))(''a'' \<mapsto> VInt 1)"
    using WithField_new[OF assms(1,3)] .
  have second: "map_of (?h2 ! Suc (length ?h1)) = (map_of (range_of (Data e) h))(''a'' \<mapsto> VInt 2)"
    using WithField_new[OF alloc1] assms(3) by (simp add: keep1)
  have "take (length ?h1) ?h2 = ?h1"
    by (rule WithField_old)
  then have "take (length ?h1) ?h2 ! ?d1 = ?h1 ! ?d1"
    by simp
  then have still: "?h2 ! ?d1 = ?h1 ! ?d1"
    by (simp add: WithField_length)
  have keep2: "range_of (Data e) ?h2 = range_of (Data e) h"
    using range_of_take[OF alloc1 WithField_old] keep1 by simp
  have part3: "case WithField e ''a'' (VInt 1) h of (e1, h1) \<Rightarrow>
          case WithField e ''a'' (VInt 2) h1 of (e2, h2) \<Rightarrow>
            map_of (range_of (Data e1) h2) ''a'' = Some (VInt 1) \<and>
            map_of (range_of (Data e2) h2) ''a'' = Some (VInt 2) \<and>
            Data e1 \<noteq> Data e2 \<and> Data e1 \<noteq> Data e \<and> Data e2 \<noteq> Data e \<and>
            range_of (Data e) h2 = range_of (Data e) h"
    using first second still keep2 alloc_neq[of "Suc (length h)"] alloc_neq[of "Suc (length ?h1)"]
    by (simp add: case_prod_unfold WithField_entry WithField_length Entry_lit_def range_of_def
        eq_commute[of "Data e"])
  show ?thesis
    by (rule conjI[OF part1 conjI[OF part2 part3]])
qed

theorem WithFields_copy_on_write_witness:
  "allocated sample_heap (Data sample_entry) \<and> allocated sample_heap (Some 1) \<and>
   distinct (map fst (range_of (Data sample_entry) sample_heap)) \<and>
   distinct (map fst (range_of (Some 1) sample_heap)) \<and>
   (case WithFields sample_entry (Some 1) sample_heap of (e', h') \<Rightarrow>
      Logger e' = Logger sample_entry \<and> Data e' = Some (length sample_heap) \<and>
      map_of (range_of (Data e') h')
        = map_of (range_of (Data sample_entry) sample_heap) ++ map_of (range_of (Some 1) sample_heap) \<and>
      take (length sample_heap) h' = sample_heap \<and>
      range_of (Data sample_entry) h' = range_of (Data sample_entry) sample_heap \<and>
      range_of (Some 1) h' = range_of (Some 1) sample_heap)"
proof -
  have hyps: "allocated sample_heap (Data sample_entry)" "allocated sample_heap (Some 1)"
    "distinct (map fst (range_of (Data sample_entry) sample_heap))"
    "distinct (map fst (range_of (Some 1) sample_heap))"
    by (simp_all add: allocated_def sample_heap_def sample_entry_def Entry_lit_def range_of_def)
  note concl = WithFields_copy_on_write[OF hyps, of "''a''" VNil, THEN conjunct1]
  show ?thesis
    by (rule conjI[OF hyps(1) conjI[OF hyps(2) conjI[OF hyps(3) conjI[OF hyps(4) concl]]]])
qed

section \<open>Claim C2: the severity gate\<close>

text \<open>
  C2. Take an entry whose effective module name is \<open>name\<close>: its module tag when the tag is a
  string, the default (empty) name when it has no tag. For every logging method, the
  severity gate asks the logger of the entry for the minimum severity of \<open>name\<close> and lets
  the call through exactly when the severity of the method is at least as severe as that
  minimum (levels are numbers, a more severe level is a smaller one): the record is emitted
  if and only if the severity gate lets it through, and then the call runs the emission at
  the level of the method with its message. With the registry \<open>{foo: Debug, *: Info}\<close> a
  Debug call tagged \<open>foo\<close> is emitted, a Debug call tagged \<open>bar\<close> is suppressed and changes
  nothing, and a call without a tag is measured against the wildcard level Info. (An entry
  whose tag is not a string has no effective module name; that is claim C10.)
\<close>

theorem severity_gate:
  assumes "effective_module e w = Some name"
  shows "matchLevel e lv w = Inr (lv \<le> level (loggers w (Logger e)) name) \<and>
         (emitted w (call m x e format args w) \<longleftrightarrow> method_level m \<le> level (loggers w (Logger e)) name) \<and>
         (method_level m \<le> level (loggers w (Logger e)) name \<longrightarrow>
            call m x e format args w =
              and_then (log e (method_level m) (method_message m x format args) w)
                (after_log m x format args)) \<and>
         (level (loggers w (Logger e)) = registry_level [(''foo'', DebugLevel), (''*'', InfoLevel)] base \<longrightarrow>
            (name = ''foo'' \<longrightarrow> emitted w (Debug x e args w)) \<and>
            (name = ''bar'' \<longrightarrow> \<not> emitted w (Debug x e args w) \<and> Debug x e args w = (Returned, w)) \<and>
            (module_tag e w = None \<longrightarrow>
               (emitted w (call m x e format args w) \<longleftrightarrow> method_level m \<le> InfoLevel)))"
proof -
  let ?L = "level (loggers w (Logger e))"
  note gate = effective_module_gate[OF assms]
  have em: "emitted w (call m' x e format args w) \<longleftrightarrow> method_level m' \<le> ?L name" for m'
    using emitted_iff[OF gate] .
  have run: "method_level m \<le> ?L name \<longrightarrow>
            call m x e format args w =
              and_then (log e (method_level m) (method_message m x format args) w)
                (after_log m x format args)"
    using call_gate_open[of e m w] gate[of "method_level m"] by simp
  have untagged: "name = DefaultModuleName" if "module_tag e w = None"
    using assms that by (simp add: effective_module_def)
  have foo: "registry_level [(''foo'', DebugLevel), (''*'', InfoLevel)] base ''foo'' = DebugLevel"
    and bar: "registry_level [(''foo'', DebugLevel), (''*'', InfoLevel)] base ''bar'' = InfoLevel"
    and dflt: "registry_level [(''foo'', DebugLevel), (''*'', InfoLevel)] base DefaultModuleName = InfoLevel"
    by (simp_all add: registry_level_def DefaultModuleName_def)
  have debug: "call M_Debug x e format args w = Debug x e args w"
    by simp
  have closed: "Debug x e args w = (Returned, w)" if "\<not> DebugLevel \<le> ?L name"
    using call_gate_closed[of e M_Debug w x format args] gate[of DebugLevel] that
    by (simp add: level_defs)
  have examples: "(name = ''foo'' \<longrightarrow> emitted w (Debug x e args w)) \<and>
            (name = ''bar'' \<longrightarrow> \<not> emitted w (Debug x e args w) \<and> Debug x e args w = (Returned, w)) \<and>
            (module_tag e w = None \<longrightarrow>
               (emitted w (call m x e format args w) \<longleftrightarrow> method_level m \<le> InfoLevel))"
    if reg: "?L = registry_level [(''foo'', DebugLevel), (''*'', InfoLevel)] base"
  proof (intro conjI impI)
    assume "name = ''foo''"
    then have "?L name = DebugLevel" by (simp add: reg foo)
    then show "emitted w (Debug x e args w)"
      using em[of M_Debug] by (simp only: debug method_level.simps)
  next
    assume "name = ''bar''"
    then have "?L name = InfoLevel" by (simp add: reg bar)
    then have no: "\<not> DebugLevel \<le> ?L name" by (simp add: level_defs)
    then show "\<not> emitted w (Debug x e args w)"
      using em[of M_Debug] by (simp only: debug method_level.simps simp_thms)
    from no show "Debug x e args w = (Returned, w)" by (rule closed)
  next
    assume "module_tag e w = None"
    then have "?L name = InfoLevel" by (simp add: untagged reg dflt)
    then show "emitted w (call m x e format args w) \<longleftrightarrow> method_level m \<le> InfoLevel"
      using em[of m] by simp
  qed
  show ?thesis
    using gate em[of m] run examples by blast
qed

theorem severity_gate_witness:
  "effective_module (Entry_lit 0 (Some 0)) (sample_world tagged_heap) = Some ''foo'' \<and>
   emitted (sample_world tagged_heap)
     (Debug sample_ext (Entry_lit 0 (Some 0)) [VString ''x''] (sample_world tagged_heap)) \<and>
   effective_module (Entry_lit 0 (Some 1)) (sample_world tagged_heap) = Some ''bar'' \<and>
   Debug sample_ext (Entry_lit 0 (Some 1)) [VString ''x''] (sample_world tagged_heap)
     = (Returned, sample_world tagged_heap) \<and>
   effective_module (Entry_lit 0 (Some 2)) (sample_world tagged_heap) = Some DefaultModuleName \<and>
   module_tag (Entry_lit 0 (Some 2)) (sample_world tagged_heap) = None \<and>
   emitted (sample_world tagged_heap)
     (call M_Info sample_ext (Entry_lit 0 (Some 2)) [] [VString ''x''] (sample_world tagged_heap)) \<and>
   \<not> emitted (sample_world tagged_heap)
     (call M_Debug sample_ext (Entry_lit 0 (Some 2)) [] [VString ''x''] (sample_world tagged_heap))"
proof -
  let ?w = "sample_world tagged_heap"
  have foo: "effective_module (Entry_lit 0 (Some 0)) ?w = Some ''foo''"
    and bar: "effective_module (Entry_lit 0 (Some 1)) ?w = Some ''bar''"
    and none: "effective_module (Entry_lit 0 (Some 2)) ?w = Some DefaultModuleName"
    and untagged: "module_tag (Entry_lit 0 (Some 2)) ?w = None"
    by (simp_all add: effective_module_def module_tag_def tagged_heap_def sample_world_def
        Entry_lit_def ModuleNameKey_def)
  have reg: "level (loggers ?w (Logger (Entry_lit 0 d)))
             = registry_level [(''foo'', DebugLevel), (''*'', InfoLevel)] ErrorLevel" for d
    by (simp add: sample_world_def sample_logger_def Entry_lit_def)
  note ex = severity_gate[where base = ErrorLevel and x = sample_ext and format = "[]"
      and args = "[VString ''x'']" and m = M_Info,
      THEN conjunct2, THEN conjunct2, THEN conjunct2, THEN mp, OF _ reg]
  note ex' = severity_gate[where base = ErrorLevel and x = sample_ext and format = "[]"
      and args = "[VString ''x'']" and m = M_Debug,
      THEN conjunct2, THEN conjunct2, THEN conjunct2, THEN mp, OF _ reg]
  have "emitted ?w (Debug sample_ext (Entry_lit 0 (Some 0)) [VString ''x''] ?w)"
    using ex[OF foo, THEN conjunct1] by simp
  moreover have "Debug sample_ext (Entry_lit 0 (Some 1)) [VString ''x''] ?w = (Returned, ?w)"
    using ex[OF bar, THEN conjunct2, THEN conjunct1] by simp
  moreover have "emitted ?w (call M_Info sample_ext (Entry_lit 0 (Some 2)) [] [VString ''x''] ?w)"
    using ex[OF none, THEN conjunct2, THEN conjunct2, THEN mp, OF untagged]
    by (simp add: level_defs)
  moreover have "\<not> emitted ?w (call M_Debug sample_ext (Entry_lit 0 (Some 2)) [] [VString ''x''] ?w)"
    using ex'[OF none, THEN conjunct2, THEN conjunct2, THEN mp, OF untagged]
    by (simp add: level_defs)
  ultimately show ?thesis
    using foo bar none untagged by blast
qed

section \<open>Claim C3: the terminal effect comes after the write\<close>

text \<open>
  C3 as stated fails when the formatter fails: \<^verbatim>\<open>log\<close> reports the failure and skips the
  write, and the terminal effect happens all the same. Here the severity gate lets a Fatal
  call and a Panic call through on a logger whose formatter fails (its hooks fail too): the
  Fatal call leaves the process with status 1 and the Panic call panics with the entry, and
  no bytes were written to the output before either.
\<close>

theorem terminal_effect_without_write_counterexample:
  "matchLevel (Entry_lit 2 (Some 0)) FatalLevel (sample_world sample_heap) = Inr True \<and>
   Fatal sample_ext (Entry_lit 2 (Some 0)) [VString ''x''] (sample_world sample_heap)
     = (Exited 1,
        (sample_world sample_heap)
          \<lparr>pool_free := [0], pool_new := 1,
           events := [EvFire 1, EvLock 2, EvStderr (''Failed to fire hook: hook down'' @ newline),
                      EvUnlock 2, EvGet 0, EvReset 0, EvFormat, EvLock 2,
                      EvStderr (''Failed to obtain reader, bad field'' @ newline), EvUnlock 2,
                      EvPut 0, EvExit 1]\<rparr>) \<and>
   matchLevel (Entry_lit 2 (Some 0)) PanicLevel (sample_world sample_heap) = Inr True \<and>
   Panic sample_ext (Entry_lit 2 (Some 0)) [VString ''x''] (sample_world sample_heap)
     = (Panicked (PanicEntry ((Entry_lit 2 (Some 0))\<lparr>Message := ''x''\<rparr>)),
        (sample_world sample_heap)
          \<lparr>pool_free := [0], pool_new := 1,
           events := [EvFire 0, EvLock 2, EvStderr (''Failed to fire hook: hook down'' @ newline),
                      EvUnlock 2, EvGet 0, EvReset 0, EvFormat, EvLock 2,
                      EvStderr (''Failed to obtain reader, bad field'' @ newline), EvUnlock 2,
                      EvPanic, EvPut 0]\<rparr>)"
  by (simp add: Fatal_def Panic_def if_matchLevel_def matchLevel_def and_then_def Exit_def panic_def
      log_def Let_def Hooks_Fire_def Formatter_Format_def bufferPool_Get_def bufferPool_Put_def
      emit_def sample_world_def sample_heap_def Entry_lit_def failing_logger_def sample_ext_def
      ModuleNameKey_def level_defs)

text \<open>
  C3, amended. Take a call of a Fatal or Panic method that the severity gate lets through,
  and let the hooks and the formatter return what they will. A Fatal method leaves the
  process with status 1 and the exit is the last event of the call; a Panic method panics
  with the entry of the emission as its payload, and the start of the panic is followed only
  by the deferred return of the buffer. No exit and no panic happens before. When the
  formatter serialized the record, the write of its bytes to the output of the logger is
  among the events before the exit or the panic: the terminal effect comes after the write.
  When the formatter failed, nothing is written before the exit or the panic.
\<close>

theorem terminal_effect_after_write:
  assumes gate: "matchLevel e (method_level m) w = Inr True"
    and H: "Hooks (loggers w (Logger e)) (method_level m)
              (e\<lparr>Time := clock w, Level := method_level m, Message := method_message m x format args\<rparr>)
              (fields_heap w) = (herr, e1, hp1)"
    and F: "Formatter (loggers w (Logger e1)) (e1\<lparr>Buffer := Some (next_buffer w)\<rparr>) hp1
              = (res, e2, hp2)"
  shows "(method_level m = FatalLevel \<longrightarrow>
            fst (call m x e format args w) = Exited 1 \<and>
            (\<exists>body.
               new_events w (snd (call m x e format args w)) = body @ [EvExit 1] \<and>
               (\<forall>ev \<in> set body. ev \<noteq> EvPanic \<and> (\<forall>c. ev \<noteq> EvExit c)) \<and>
               (\<forall>bytes. res = Inr bytes \<longrightarrow> EvWrite (Logger e2) bytes \<in> set body) \<and>
               (\<forall>err. res = Inl err \<longrightarrow> (\<forall>l bytes. EvWrite l bytes \<notin> set body)))) \<and>
         (method_level m = PanicLevel \<longrightarrow>
            fst (call m x e format args w) = Panicked (PanicEntry (e2\<lparr>Buffer := None\<rparr>)) \<and>
            (\<exists>body.
               new_events w (snd (call m x e format args w))
                 = body @ [EvPanic, EvPut (next_buffer w)] \<and>
               (\<forall>ev \<in> set body. ev \<noteq> EvPanic \<and> (\<forall>c. ev \<noteq> EvExit c)) \<and>
               (\<forall>bytes. res = Inr bytes \<longrightarrow> EvWrite (Logger e2) bytes \<in> set body) \<and>
               (\<forall>err. res = Inl err \<longrightarrow> (\<forall>l bytes. EvWrite l bytes \<notin> set body))))"
proof -
  note tr = call_trace[OF gate H F]
  have "\<exists>body.
     emission_events (method_level m) (Logger e1) herr (next_buffer w) (Logger e2) res
           (case res of Inl err \<Rightarrow> None | Inr bytes \<Rightarrow> Out (loggers w (Logger e2)) bytes)
       = body @ (if method_level m \<le> PanicLevel then [EvPanic] else []) @ [EvPut (next_buffer w)] \<and>
     (\<forall>ev \<in> set body. ev \<noteq> EvPanic \<and> (\<forall>c. ev \<noteq> EvExit c)) \<and>
     (\<forall>bytes. res = Inr bytes \<longrightarrow> EvWrite (Logger e2) bytes \<in> set body) \<and>
     (\<forall>err. res = Inl err \<longrightarrow> (\<forall>l bytes. EvWrite l bytes \<notin> set body))"
    by (rule emission_terminal_last)
  then obtain body where
    ev: "emission_events (method_level m) (Logger e1) herr (next_buffer w) (Logger e2) res
           (case res of Inl err \<Rightarrow> None | Inr bytes \<Rightarrow> Out (loggers w (Logger e2)) bytes)
         = body @ (if method_level m \<le> PanicLevel then [EvPanic] else []) @ [EvPut (next_buffer w)]"
    and clean: "\<forall>ev \<in> set body. ev \<noteq> EvPanic \<and> (\<forall>c. ev \<noteq> EvExit c)"
    and written: "\<forall>bytes. res = Inr bytes \<longrightarrow> EvWrite (Logger e2) bytes \<in> set body"
    and unwritten: "\<forall>err. res = Inl err \<longrightarrow> (\<forall>l bytes. EvWrite l bytes \<notin> set body)"
    by (elim exE conjE)
  have fatal: "method_level m = FatalLevel \<longrightarrow>
            fst (call m x e format args w) = Exited 1 \<and>
            (\<exists>body.
               new_events w (snd (call m x e format args w)) = body @ [EvExit 1] \<and>
               (\<forall>ev \<in> set body. ev \<noteq> EvPanic \<and> (\<forall>c. ev \<noteq> EvExit c)) \<and>
               (\<forall>bytes. res = Inr bytes \<longrightarrow> EvWrite (Logger e2) bytes \<in> set body) \<and>
               (\<forall>err. res = Inl err \<longrightarrow> (\<forall>l bytes. EvWrite l bytes \<notin> set body)))"
  proof
    assume lv: "method_level m = FatalLevel"
    then have n: "new_events w (snd (call m x e format args w))
                 = (body @ [EvPut (next_buffer w)]) @ [EvExit 1]"
      using tr(2) ev by (simp add: level_defs)
    have c: "\<forall>ev \<in> set (body @ [EvPut (next_buffer w)]). ev \<noteq> EvPanic \<and> (\<forall>c. ev \<noteq> EvExit c)"
      using clean by simp
    have wr: "\<forall>bytes. res = Inr bytes \<longrightarrow> EvWrite (Logger e2) bytes \<in> set (body @ [EvPut (next_buffer w)])"
      using written by simp
    have nw: "\<forall>err. res = Inl err \<longrightarrow> (\<forall>l bytes. EvWrite l bytes \<notin> set (body @ [EvPut (next_buffer w)]))"
      using unwritten by simp
    have o: "fst (call m x e format args w) = Exited 1"
      using tr(1) lv by (simp add: level_defs)
    show "fst (call m x e format args w) = Exited 1 \<and>
            (\<exists>body.
               new_events w (snd (call m x e format args w)) = body @ [EvExit 1] \<and>
               (\<forall>ev \<in> set body. ev \<noteq> EvPanic \<and> (\<forall>c. ev \<noteq> EvExit c)) \<and>
               (\<forall>bytes. res = Inr bytes \<longrightarrow> EvWrite (Logger e2) bytes \<in> set body) \<and>
               (\<forall>err. res = Inl err \<longrightarrow> (\<forall>l bytes. EvWrite l bytes \<notin> set body)))"
    proof (intro conjI exI)
      show "fst (call m x e format args w) = Exited 1"
        by (rule o)
      show "new_events w (snd (call m x e format args w)) = (body @ [EvPut (next_buffer w)]) @ [EvExit 1]"
        by (rule n)
      show "\<forall>ev \<in> set (body @ [EvPut (next_buffer w)]). ev \<noteq> EvPanic \<and> (\<forall>c. ev \<noteq> EvExit c)"
        by (rule c)
      show "\<forall>bytes. res = Inr bytes \<longrightarrow> EvWrite (Logger e2) bytes \<in> set (body @ [EvPut (next_buffer w)])"
        by (rule wr)
      show "\<forall>err. res = Inl err \<longrightarrow> (\<forall>l bytes. EvWrite l bytes \<notin> set (body @ [EvPut (next_buffer w)]))"
        by (rule nw)
    qed
  qed
  have panic: "method_level m = PanicLevel \<longrightarrow>
            fst (call m x e format args w) = Panicked (PanicEntry (e2\<lparr>Buffer := None\<rparr>)) \<and>
            (\<exists>body.
               new_events w (snd (call m x e format args w))
                 = body @ [EvPanic, EvPut (next_buffer w)] \<and>
               (\<forall>ev \<in> set body. ev \<noteq> EvPanic \<and> (\<forall>c. ev \<noteq> EvExit c)) \<and>
               (\<forall>bytes. res = Inr bytes \<longrightarrow> EvWrite (Logger e2) bytes \<in> set body) \<and>
               (\<forall>err. res = Inl err \<longrightarrow> (\<forall>l bytes. EvWrite l bytes \<notin> set body)))"
  proof
    assume lv: "method_level m = PanicLevel"
    then have n: "new_events w (snd (call m x e format args w))
                 = body @ [EvPanic, EvPut (next_buffer w)]"
      using tr(2) ev by (simp add: level_defs)
    have o: "fst (call m x e format args w) = Panicked (PanicEntry (e2\<lparr>Buffer := None\<rparr>))"
      using tr(1) lv by simp
    show "fst (call m x e format args w) = Panicked (PanicEntry (e2\<lparr>Buffer := None\<rparr>)) \<and>
            (\<exists>body.
               new_events w (snd (call m x e format args w))
                 = body @ [EvPanic, EvPut (next_buffer w)] \<and>
               (\<forall>ev \<in> set body. ev \<noteq> EvPanic \<and> (\<forall>c. ev \<noteq> EvExit c)) \<and>
               (\<forall>bytes. res = Inr bytes \<longrightarrow> EvWrite (Logger e2) bytes \<in> set body) \<and>
               (\<forall>err. res = Inl err \<longrightarrow> (\<forall>l bytes. EvWrite l bytes \<notin> set body)))"
    proof (intro conjI exI)
      show "fst (call m x e format args w) = Panicked (PanicEntry (e2\<lparr>Buffer := None\<rparr>))"
        by (rule o)
      show "new_events w (snd (call m x e format args w)) = body @ [EvPanic, EvPut (next_buffer w)]"
        by (rule n)
      show "\<forall>ev \<in> set body. ev \<noteq> EvPanic \<and> (\<forall>c. ev \<noteq> EvExit c)"
        by (rule clean)
      show "\<forall>bytes. res = Inr bytes \<longrightarrow> EvWrite (Logger e2) bytes \<in> set body"
        by (rule written)
      show "\<forall>err. res = Inl err \<longrightarrow> (\<forall>l bytes. EvWrite l bytes \<notin> set body)"
        by (rule unwritten)
    qed
  qed
  show ?thesis
    by (rule conjI[OF fatal panic])
qed

theorem terminal_effect_after_write_witness:
  "(matchLevel sample_entry (method_level M_Fatal) (sample_world sample_heap) = Inr True \<and>
    Hooks (loggers (sample_world sample_heap) (Logger sample_entry)) (method_level M_Fatal)
      (sample_entry\<lparr>Time := clock (sample_world sample_heap), Level := method_level M_Fatal,
                     Message := method_message M_Fatal sample_ext [] [VString ''down'']\<rparr>)
      (fields_heap (sample_world sample_heap))
      = (None, sample_entry\<lparr>Level := FatalLevel, Message := ''down''\<rparr>, sample_heap) \<and>
    Formatter (loggers (sample_world sample_heap)
                 (Logger (sample_entry\<lparr>Level := FatalLevel, Message := ''down''\<rparr>)))
      (sample_entry\<lparr>Level := FatalLevel, Message := ''down'',
                     Buffer := Some (next_buffer (sample_world sample_heap))\<rparr>) sample_heap
      = (Inr ''down'', sample_entry\<lparr>Level := FatalLevel, Message := ''down'', Buffer := Some 0\<rparr>,
         sample_heap) \<and>
    method_level M_Fatal = FatalLevel \<and>
    fst (call M_Fatal sample_ext sample_entry [] [VString ''down''] (sample_world sample_heap))
      = Exited 1 \<and>
    (\<exists>body.
       new_events (sample_world sample_heap)
         (snd (call M_Fatal sample_ext sample_entry [] [VString ''down''] (sample_world sample_heap)))
         = body @ [EvExit 1] \<and>
       (\<forall>ev \<in> set body. ev \<noteq> EvPanic \<and> (\<forall>c. ev \<noteq> EvExit c)) \<and>
       EvWrite 0 ''down'' \<in> set body)) \<and>
   (matchLevel sample_entry (method_level M_Panic) (sample_world sample_heap) = Inr True \<and>
    Hooks (loggers (sample_world sample_heap) (Logger sample_entry)) (method_level M_Panic)
      (sample_entry\<lparr>Time := clock (sample_world sample_heap), Level := method_level M_Panic,
                     Message := method_message M_Panic sample_ext [] [VString ''down'']\<rparr>)
      (fields_heap (sample_world sample_heap))
      = (None, sample_entry\<lparr>Level := PanicLevel, Message := ''down''\<rparr>, sample_heap) \<and>
    Formatter (loggers (sample_world sample_heap)
                 (Logger (sample_entry\<lparr>Level := PanicLevel, Message := ''down''\<rparr>)))
      (sample_entry\<lparr>Level := PanicLevel, Message := ''down'',
                     Buffer := Some (next_buffer (sample_world sample_heap))\<rparr>) sample_heap
      = (Inr ''down'', sample_entry\<lparr>Level := PanicLevel, Message := ''down'', Buffer := Some 0\<rparr>,
         sample_heap) \<and>
    method_level M_Panic = PanicLevel \<and>
    fst (call M_Panic sample_ext sample_entry [] [VString ''down''] (sample_world sample_heap))
      = Panicked (PanicEntry (sample_entry\<lparr>Level := PanicLevel, Message := ''down''\<rparr>)) \<and>
    (\<exists>body.
       new_events (sample_world sample_heap)
         (snd (call M_Panic sample_ext sample_entry [] [VString ''down''] (sample_world sample_heap)))
         = body @ [EvPanic, EvPut 0] \<and>
       (\<forall>ev \<in> set body. ev \<noteq> EvPanic \<and> (\<forall>c. ev \<noteq> EvExit c)) \<and>
       EvWrite 0 ''down'' \<in> set body))"
proof -
  let ?w = "sample_world sample_heap"
  have gate: "matchLevel sample_entry (method_level m) ?w = Inr True"
    if "m = M_Fatal \<or> m = M_Panic" for m
    using that
    by (auto simp: matchLevel_def sample_entry_def Entry_lit_def sample_world_def sample_heap_def
        ModuleNameKey_def sample_logger_def registry_level_def DefaultModuleName_def level_defs)
  have H: "Hooks (loggers ?w (Logger sample_entry)) (method_level m)
     (sample_entry\<lparr>Time := clock ?w, Level := method_level m,
                    Message := method_message m sample_ext [] [VString ''down'']\<rparr>)
     (fields_heap ?w)
     = (None, sample_entry\<lparr>Level := method_level m, Message := ''down''\<rparr>, sample_heap)"
    if "m = M_Fatal \<or> m = M_Panic" for m
    using that
    by (auto simp: sample_entry_def Entry_lit_def sample_world_def sample_logger_def
        method_message_def is_f_def is_ln_def sample_ext_def)
  have F: "Formatter (loggers ?w (Logger (sample_entry\<lparr>Level := lv, Message := ''down''\<rparr>)))
     (sample_entry\<lparr>Level := lv, Message := ''down'', Buffer := Some (next_buffer ?w)\<rparr>)
     sample_heap
     = (Inr ''down'', sample_entry\<lparr>Level := lv, Message := ''down'', Buffer := Some 0\<rparr>,
        sample_heap)" for lv
    by (simp add: sample_entry_def Entry_lit_def sample_world_def sample_logger_def next_buffer_def)
  have same: "Logger (sample_entry\<lparr>Level := lv, Message := ''down'', Buffer := Some 0\<rparr>) = 0"
    "sample_entry\<lparr>Level := lv, Message := ''down'', Buffer := Some 0, Buffer := None\<rparr>
       = sample_entry\<lparr>Level := lv, Message := ''down''\<rparr>"
    "next_buffer ?w = 0" for lv
    by (simp_all add: sample_entry_def Entry_lit_def sample_world_def next_buffer_def)
  have lvF: "method_level M_Fatal = FatalLevel" and lvP: "method_level M_Panic = PanicLevel"
    by simp_all
  from terminal_effect_after_write[OF gate[of M_Fatal] H[of M_Fatal] F[of "method_level M_Fatal"],
      THEN conjunct1, THEN mp, OF _ _ lvF]
  have RF: "fst (call M_Fatal sample_ext sample_entry [] [VString ''down''] ?w) = Exited 1 \<and>
   (\<exists>body.
      new_events ?w (snd (call M_Fatal sample_ext sample_entry [] [VString ''down''] ?w))
        = body @ [EvExit 1] \<and>
      (\<forall>ev \<in> set body. ev \<noteq> EvPanic \<and> (\<forall>c. ev \<noteq> EvExit c)) \<and>
      EvWrite 0 ''down'' \<in> set body)"
    unfolding same by simp
  from terminal_effect_after_write[OF gate[of M_Panic] H[of M_Panic] F[of "method_level M_Panic"],
      THEN conjunct2, THEN mp, OF _ _ lvP]
  have RP: "fst (call M_Panic sample_ext sample_entry [] [VString ''down''] ?w)
      = Panicked (PanicEntry (sample_entry\<lparr>Level := PanicLevel, Message := ''down''\<rparr>)) \<and>
   (\<exists>body.
      new_events ?w (snd (call M_Panic sample_ext sample_entry [] [VString ''down''] ?w))
        = body @ [EvPanic, EvPut 0] \<and>
      (\<forall>ev \<in> set body. ev \<noteq> EvPanic \<and> (\<forall>c. ev \<noteq> EvExit c)) \<and>
      EvWrite 0 ''down'' \<in> set body)"
    unfolding same by simp
  have fatal_part: "matchLevel sample_entry (method_level M_Fatal) ?w = Inr True"
    "Hooks (loggers ?w (Logger sample_entry)) (method_level M_Fatal)
      (sample_entry\<lparr>Time := clock ?w, Level := method_level M_Fatal,
                     Message := method_message M_Fatal sample_ext [] [VString ''down'']\<rparr>)
      (fields_heap ?w)
      = (None, sample_entry\<lparr>Level := FatalLevel, Message := ''down''\<rparr>, sample_heap)"
    "matchLevel sample_entry (method_level M_Panic) ?w = Inr True"
    "Hooks (loggers ?w (Logger sample_entry)) (method_level M_Panic)
      (sample_entry\<lparr>Time := clock ?w, Level := method_level M_Panic,
                     Message := method_message M_Panic sample_ext [] [VString ''down'']\<rparr>)
      (fields_heap ?w)
      = (None, sample_entry\<lparr>Level := PanicLevel, Message := ''down''\<rparr>, sample_heap)"
    using gate[of M_Fatal] H[of M_Fatal] gate[of M_Panic] H[of M_Panic] by simp_all
  show ?thesis
    using fatal_part F[of FatalLevel] F[of PanicLevel] lvF lvP
      RF[THEN conjunct1] RF[THEN conjunct2] RP[THEN conjunct1] RP[THEN conjunct2]
    by (intro conjI)
qed

section \<open>Claim C4: a call the severity gate rejects\<close>

text \<open>
  C4 as stated fails for the Fatal level: \<^verbatim>\<open>Fatal\<close> calls \<^verbatim>\<open>Exit(1)\<close> after the block
  under the level check, whether the check let the call through or not. Here the minimum
  severity of the logger is Panic, the Fatal call is rejected by the level check, nothing
  is emitted, and the process exits with status 1 all the same.
\<close>

theorem gated_out_Fatal_exits_counterexample:
  "effective_module (Entry_lit 1 (Some 2)) (sample_world tagged_heap) = Some DefaultModuleName \<and>
   level (loggers (sample_world tagged_heap) (Logger (Entry_lit 1 (Some 2)))) DefaultModuleName
     < FatalLevel \<and>
   fst (Fatal sample_ext (Entry_lit 1 (Some 2)) [VString ''x''] (sample_world tagged_heap)) = Exited 1 \<and>
   events (snd (Fatal sample_ext (Entry_lit 1 (Some 2)) [VString ''x''] (sample_world tagged_heap)))
     = [EvExit 1]"
  by (simp add: effective_module_def module_tag_def tagged_heap_def sample_world_def Entry_lit_def
      ModuleNameKey_def quiet_logger_def sample_logger_def level_defs Fatal_def if_matchLevel_def
      matchLevel_def and_then_def Exit_def emit_def DefaultModuleName_def)

text \<open>
  C4, amended. For every logging method whose severity is less severe than the minimum of
  the effective module of the entry, no hook fires, no buffer is taken and nothing is
  formatted or written. For the levels Trace to Error the call returns and the world is
  what it was; a Fatal method (\<^verbatim>\<open>Fatal\<close>, \<^verbatim>\<open>Fatalf\<close>, \<^verbatim>\<open>Fatalln\<close>) does nothing but leave
  the process with status 1. The Panic level is never rejected, since no level is more
  severe.
\<close>

theorem gated_out_call:
  assumes "effective_module e w = Some name"
    and "level (loggers w (Logger e)) name < method_level m"
  shows "call m x e format args w = (if method_level m = FatalLevel then Exit 1 w else (Returned, w)) \<and>
         new_events w (snd (call m x e format args w))
           = (if method_level m = FatalLevel then [EvExit 1] else []) \<and>
         \<not> emitted w (call m x e format args w) \<and>
         method_level m \<noteq> PanicLevel"
proof -
  have gate: "matchLevel e (method_level m) w = Inr False"
    using effective_module_gate[OF assms(1), of "method_level m"] assms(2) by simp
  have "method_level m \<noteq> PanicLevel"
    using assms(2) by (simp add: PanicLevel_def)
  then show ?thesis
    using emitted_iff[OF gate, of x format args]
    by (simp add: call_gate_closed[OF gate] new_events_def Exit_def emit_def)
qed

theorem gated_out_call_witness:
  "effective_module (Entry_lit 0 (Some 1)) (sample_world tagged_heap) = Some ''bar'' \<and>
   level (loggers (sample_world tagged_heap) (Logger (Entry_lit 0 (Some 1)))) ''bar''
     < method_level M_Debugf \<and>
   call M_Debugf sample_ext (Entry_lit 0 (Some 1)) ''%v'' [VInt 1] (sample_world tagged_heap)
     = (Returned, sample_world tagged_heap) \<and>
   effective_module (Entry_lit 1 (Some 2)) (sample_world tagged_heap) = Some DefaultModuleName \<and>
   level (loggers (sample_world tagged_heap) (Logger (Entry_lit 1 (Some 2)))) DefaultModuleName
     < method_level M_Fatal \<and>
   call M_Fatal sample_ext (Entry_lit 1 (Some 2)) ''%v'' [VInt 1] (sample_world tagged_heap)
     = Exit 1 (sample_world tagged_heap)"
proof -
  let ?w = "sample_world tagged_heap"
  have bar: "effective_module (Entry_lit 0 (Some 1)) ?w = Some ''bar''"
    and none: "effective_module (Entry_lit 1 (Some 2)) ?w = Some DefaultModuleName"
    by (simp_all add: effective_module_def module_tag_def tagged_heap_def sample_world_def
        Entry_lit_def ModuleNameKey_def)
  have lt1: "level (loggers ?w (Logger (Entry_lit 0 (Some 1)))) ''bar'' < method_level M_Debugf"
    by (simp add: sample_world_def sample_logger_def Entry_lit_def registry_level_def level_defs)
  have lt2: "level (loggers ?w (Logger (Entry_lit 1 (Some 2)))) DefaultModuleName < method_level M_Fatal"
    by (simp add: sample_world_def sample_logger_def quiet_logger_def Entry_lit_def level_defs)
  have "call M_Debugf sample_ext (Entry_lit 0 (Some 1)) ''%v'' [VInt 1] ?w = (Returned, ?w)"
    using gated_out_call[OF bar lt1, of sample_ext "''%v''" "[VInt 1]", THEN conjunct1]
    by (simp only: method_level.simps) (simp add: level_defs)
  moreover have "call M_Fatal sample_ext (Entry_lit 1 (Some 2)) ''%v'' [VInt 1] ?w = Exit 1 ?w"
    using gated_out_call[OF none lt2, of sample_ext "''%v''" "[VInt 1]", THEN conjunct1]
    by (simp only: method_level.simps) simp
  ultimately show ?thesis
    using bar none lt1 lt2 by blast
qed

section \<open>Claim C5: reserved keys and attached fields\<close>

text \<open>
  C5 as stated fails: \<open>WithError\<close> writes the reserved keys first and the attached fields
  of the error after them, so an attached field named like a reserved key replaces the value
  taken from the error. Here the attached fields \<open>error\<close> and \<open>module\<close> of the error replace
  the error itself and its name \<open>db\<close>.
\<close>

theorem WithError_attached_overwrite_counterexample:
  "map_of (snd (WithError sample_ext [''main''] sample_entry (Some shadowing_error) sample_heap) ! 2)
     ErrorKey = Some (VString ''shadow'') \<and>
   map_of (snd (WithError sample_ext [''main''] sample_entry (Some shadowing_error) sample_heap) ! 2)
     ModuleNameKey = Some (VInt 5) \<and>
   VString ''shadow'' \<noteq> VError shadowing_error \<and> VInt 5 \<noteq> VString (Name shadowing_error)"
  by (simp add: WithError_def shadowing_error_def make_Fields_def map_store_def WithFields_def
      Let_def range_of_def ErrorKey_def StacktraceKey_def ModuleNameKey_def err_val_def
      sample_heap_def sample_entry_def Entry_lit_def)

text \<open>
  C5, amended. For a structured error, every attached field is in the fragment with its own
  value, and each of the three reserved keys that is not the key of an attached field holds
  the value taken from the error: the error, the stack trace it captured, and its name (no
  module-name key at all when the name is empty).
\<close>

theorem WithError_reserved_keys:
  assumes "allocated h (Data e)" and "distinct (map fst (range_of (Data e) h))"
    and "distinct (map fst attached)"
  shows "case WithError x callers e (Some (StructuredError name attached captured)) h of (e', h') \<Rightarrow>
           (\<forall>k \<in> fst ` set attached. map_of (h' ! length h) k = map_of attached k) \<and>
           (ErrorKey \<notin> fst ` set attached \<longrightarrow>
              map_of (h' ! length h) ErrorKey = Some (VError (StructuredError name attached captured))) \<and>
           (StacktraceKey \<notin> fst ` set attached \<longrightarrow>
              map_of (h' ! length h) StacktraceKey = Some (VString captured)) \<and>
           (ModuleNameKey \<notin> fst ` set attached \<longrightarrow>
              map_of (h' ! length h) ModuleNameKey = (if name = [] then None else Some (VString name))) \<and>
           map_of (range_of (Data e') h') = map_of (range_of (Data e) h) ++ map_of (h' ! length h)"
proof -
  let ?W = "WithError x callers e (Some (StructuredError name attached captured)) h"
  note s = merge_fragment[OF assms(1,2),
      of "reserved_fields name attached captured @ attached", folded WithError_structured]
  have frag: "map_of (snd ?W ! length h)
              = map_of (rev (reserved_fields name attached captured)) ++ map_of attached"
    using s(2) assms(3) by (simp add: WithError_structured map_of_rev_distinct)
  have data: "map_of (range_of (Data (fst ?W)) (snd ?W))
              = map_of (range_of (Data e) h) ++ map_of (snd ?W ! length h)"
    using s(1,2,3) by (simp add: WithError_structured Entry_lit_def range_of_def)
  have wins: "\<forall>k \<in> fst ` set attached. map_of (snd ?W ! length h) k = map_of attached k"
    by (auto simp: frag map_add_def map_of_eq_None_iff split: option.splits)
  have absent: "map_of (snd ?W ! length h) k = map_of (rev (reserved_fields name attached captured)) k"
    if "k \<notin> fst ` set attached" for k
    using that by (simp add: frag map_add_def map_of_eq_None_iff[THEN iffD2])
  have keys: "ErrorKey \<noteq> StacktraceKey" "ErrorKey \<noteq> ModuleNameKey" "StacktraceKey \<noteq> ModuleNameKey"
    by (simp_all add: ErrorKey_def StacktraceKey_def ModuleNameKey_def)
  have c1: "ErrorKey \<notin> fst ` set attached \<longrightarrow>
              map_of (snd ?W ! length h) ErrorKey = Some (VError (StructuredError name attached captured))"
    using keys by (simp add: absent reserved_map)
  have c2: "StacktraceKey \<notin> fst ` set attached \<longrightarrow>
              map_of (snd ?W ! length h) StacktraceKey = Some (VString captured)"
    using keys by (simp add: absent reserved_map)
  have c3: "ModuleNameKey \<notin> fst ` set attached \<longrightarrow>
              map_of (snd ?W ! length h) ModuleNameKey = (if name = [] then None else Some (VString name))"
    using keys by (simp add: absent reserved_map)
  from wins c1 c2 c3 data show ?thesis
    by (simp only: case_prod_unfold simp_thms)
qed

theorem WithError_reserved_keys_witness:
  "allocated sample_heap (Data sample_entry) \<and>
   distinct (map fst (range_of (Data sample_entry) sample_heap)) \<and>
   distinct (map fst [(''path'', VString ''/tmp'')]) \<and>
   ErrorKey \<notin> fst ` set [(''path'', VString ''/tmp'')] \<and>
   StacktraceKey \<notin> fst ` set [(''path'', VString ''/tmp'')] \<and>
   ModuleNameKey \<notin> fst ` set [(''path'', VString ''/tmp'')] \<and>
   ''path'' \<in> fst ` set [(''path'', VString ''/tmp'')] \<and>
   (case WithError sample_ext [''main''] sample_entry
           (Some (StructuredError ''db'' [(''path'', VString ''/tmp'')] ''trace'')) sample_heap of
      (e', h') \<Rightarrow>
        map_of (h' ! length sample_heap) ErrorKey
          = Some (VError (StructuredError ''db'' [(''path'', VString ''/tmp'')] ''trace'')) \<and>
        map_of (h' ! length sample_heap) StacktraceKey = Some (VString ''trace'') \<and>
        map_of (h' ! length sample_heap) ModuleNameKey = Some (VString ''db'') \<and>
        map_of (h' ! length sample_heap) ''path'' = Some (VString ''/tmp''))"
proof -
  have hyps: "allocated sample_heap (Data sample_entry)"
    "distinct (map fst (range_of (Data sample_entry) sample_heap))"
    "distinct (map fst [(''path'', VString ''/tmp'')])"
    by (simp_all add: allocated_def sample_heap_def sample_entry_def Entry_lit_def range_of_def)
  have keys: "ErrorKey \<notin> fst ` set [(''path'', VString ''/tmp'')]"
    "StacktraceKey \<notin> fst ` set [(''path'', VString ''/tmp'')]"
    "ModuleNameKey \<notin> fst ` set [(''path'', VString ''/tmp'')]"
    "''path'' \<in> fst ` set [(''path'', VString ''/tmp'')]"
    by (simp_all add: ErrorKey_def StacktraceKey_def ModuleNameKey_def)
  note concl = WithError_reserved_keys[OF hyps, where x = sample_ext and callers = "[''main'']"
      and name = "''db''" and captured = "''trace''"]
  show ?thesis
    using hyps keys concl
    by (auto simp: case_prod_unfold)
qed

section \<open>Claim C6: failures inside the pipeline\<close>

text \<open>
  C6. Take a call the severity gate lets through, and let the hooks and the formatter
  return what they will. How the call ends depends on the level of the method alone (a
  Panic method panics with the entry, a Fatal method leaves the process with status 1,
  every other method returns), never on a failure inside: a failure of the hooks is
  reported on stderr and the record still goes to the formatter; a failure of the formatter
  is reported, no bytes are written, and the exit of a Fatal method and the panic of a Panic
  method still happen; a failure of the write is reported after the write was tried.
\<close>

theorem failures_stay_inside:
  assumes gate: "matchLevel e (method_level m) w = Inr True"
    and H: "Hooks (loggers w (Logger e)) (method_level m)
              (e\<lparr>Time := clock w, Level := method_level m, Message := method_message m x format args\<rparr>)
              (fields_heap w) = (herr, e1, hp1)"
    and F: "Formatter (loggers w (Logger e1)) (e1\<lparr>Buffer := Some (next_buffer w)\<rparr>) hp1
              = (res, e2, hp2)"
  shows "fst (call m x e format args w) =
           (if method_level m = PanicLevel then Panicked (PanicEntry (e2\<lparr>Buffer := None\<rparr>))
            else if method_level m = FatalLevel then Exited 1 else Returned) \<and>
         (\<forall>err. herr = Some err \<longrightarrow>
            EvStderr (''Failed to fire hook: '' @ err @ newline)
              \<in> set (new_events w (snd (call m x e format args w))) \<and>
            emitted w (call m x e format args w)) \<and>
         (\<forall>err. res = Inl err \<longrightarrow>
            EvStderr (''Failed to obtain reader, '' @ err @ newline)
              \<in> set (new_events w (snd (call m x e format args w))) \<and>
            (\<forall>l bytes. EvWrite l bytes \<notin> set (new_events w (snd (call m x e format args w)))) \<and>
            (method_level m = FatalLevel \<longrightarrow>
               EvExit 1 \<in> set (new_events w (snd (call m x e format args w)))) \<and>
            (method_level m = PanicLevel \<longrightarrow>
               EvPanic \<in> set (new_events w (snd (call m x e format args w))))) \<and>
         (\<forall>bytes err. res = Inr bytes \<and> Out (loggers w (Logger e2)) bytes = Some err \<longrightarrow>
            EvWrite (Logger e2) bytes \<in> set (new_events w (snd (call m x e format args w))) \<and>
            EvStderr (''Failed to write to log, '' @ err @ newline)
              \<in> set (new_events w (snd (call m x e format args w))))"
proof -
  note tr = call_trace[OF gate H F]
  have hook: "\<forall>err. herr = Some err \<longrightarrow>
            EvStderr (''Failed to fire hook: '' @ err @ newline)
              \<in> set (new_events w (snd (call m x e format args w))) \<and>
            emitted w (call m x e format args w)"
    by (simp add: tr(2) emitted_def emission_events_def)
  have fmt: "\<forall>err. res = Inl err \<longrightarrow>
            EvStderr (''Failed to obtain reader, '' @ err @ newline)
              \<in> set (new_events w (snd (call m x e format args w))) \<and>
            (\<forall>l bytes. EvWrite l bytes \<notin> set (new_events w (snd (call m x e format args w)))) \<and>
            (method_level m = FatalLevel \<longrightarrow>
               EvExit 1 \<in> set (new_events w (snd (call m x e format args w)))) \<and>
            (method_level m = PanicLevel \<longrightarrow>
               EvPanic \<in> set (new_events w (snd (call m x e format args w))))"
    by (auto simp: tr(2) emission_events_def split: option.splits)
  have wr: "\<forall>bytes err. res = Inr bytes \<and> Out (loggers w (Logger e2)) bytes = Some err \<longrightarrow>
            EvWrite (Logger e2) bytes \<in> set (new_events w (snd (call m x e format args w))) \<and>
            EvStderr (''Failed to write to log, '' @ err @ newline)
              \<in> set (new_events w (snd (call m x e format args w)))"
    by (simp add: tr(2) emission_events_def)
  show ?thesis
    by (rule conjI[OF tr(1) conjI[OF hook conjI[OF fmt wr]]])
qed

theorem failures_stay_inside_witness:
  "(matchLevel (Entry_lit 2 (Some 0)) (method_level M_Error) (sample_world sample_heap) = Inr True \<and>
    Hooks (loggers (sample_world sample_heap) (Logger (Entry_lit 2 (Some 0)))) (method_level M_Error)
      ((Entry_lit 2 (Some 0))\<lparr>Time := clock (sample_world sample_heap), Level := method_level M_Error,
          Message := method_message M_Error sample_ext [] [VString ''lost'']\<rparr>)
      (fields_heap (sample_world sample_heap))
      = (Some ''hook down'', (Entry_lit 2 (Some 0))\<lparr>Level := ErrorLevel, Message := ''lost''\<rparr>,
         sample_heap) \<and>
    Formatter (loggers (sample_world sample_heap)
                 (Logger ((Entry_lit 2 (Some 0))\<lparr>Level := ErrorLevel, Message := ''lost''\<rparr>)))
      ((Entry_lit 2 (Some 0))\<lparr>Level := ErrorLevel, Message := ''lost'',
          Buffer := Some (next_buffer (sample_world sample_heap))\<rparr>) sample_heap
      = (Inl ''bad field'',
         (Entry_lit 2 (Some 0))\<lparr>Level := ErrorLevel, Message := ''lost'', Buffer := Some 0\<rparr>,
         sample_heap) \<and>
    fst (call M_Error sample_ext (Entry_lit 2 (Some 0)) [] [VString ''lost''] (sample_world sample_heap))
      = Returned \<and>
    EvStderr (''Failed to fire hook: '' @ ''hook down'' @ newline)
      \<in> set (new_events (sample_world sample_heap)
               (snd (call M_Error sample_ext (Entry_lit 2 (Some 0)) [] [VString ''lost'']
                       (sample_world sample_heap)))) \<and>
    EvStderr (''Failed to obtain reader, '' @ ''bad field'' @ newline)
      \<in> set (new_events (sample_world sample_heap)
               (snd (call M_Error sample_ext (Entry_lit 2 (Some 0)) [] [VString ''lost'']
                       (sample_world sample_heap)))) \<and>
    EvWrite 2 ''lost''
      \<notin> set (new_events (sample_world sample_heap)
               (snd (call M_Error sample_ext (Entry_lit 2 (Some 0)) [] [VString ''lost'']
                       (sample_world sample_heap))))) \<and>
   (matchLevel (Entry_lit 3 (Some 0)) (method_level M_Error) (sample_world sample_heap) = Inr True \<and>
    Hooks (loggers (sample_world sample_heap) (Logger (Entry_lit 3 (Some 0)))) (method_level M_Error)
      ((Entry_lit 3 (Some 0))\<lparr>Time := clock (sample_world sample_heap), Level := method_level M_Error,
          Message := method_message M_Error sample_ext [] [VString ''lost'']\<rparr>)
      (fields_heap (sample_world sample_heap))
      = (Some ''hook down'', (Entry_lit 3 (Some 0))\<lparr>Level := ErrorLevel, Message := ''lost''\<rparr>,
         sample_heap) \<and>
    Formatter (loggers (sample_world sample_heap)
                 (Logger ((Entry_lit 3 (Some 0))\<lparr>Level := ErrorLevel, Message := ''lost''\<rparr>)))
      ((Entry_lit 3 (Some 0))\<lparr>Level := ErrorLevel, Message := ''lost'',
          Buffer := Some (next_buffer (sample_world sample_heap))\<rparr>) sample_heap
      = (Inr ''lost'',
         (Entry_lit 3 (Some 0))\<lparr>Level := ErrorLevel, Message := ''lost'', Buffer := Some 0\<rparr>,
         sample_heap) \<and>
    Out (loggers (sample_world sample_heap) 3) ''lost'' = Some ''disk full'' \<and>
    fst (call M_Error sample_ext (Entry_lit 3 (Some 0)) [] [VString ''lost''] (sample_world sample_heap))
      = Returned \<and>
    EvWrite 3 ''lost''
      \<in> set (new_events (sample_world sample_heap)
               (snd (call M_Error sample_ext (Entry_lit 3 (Some 0)) [] [VString ''lost'']
                       (sample_world sample_heap)))) \<and>
    EvStderr (''Failed to write to log, '' @ ''disk full'' @ newline)
      \<in> set (new_events (sample_world sample_heap)
               (snd (call M_Error sample_ext (Entry_lit 3 (Some 0)) [] [VString ''lost'']
                       (sample_world sample_heap)))))"
proof -
  let ?w = "sample_world sample_heap"
  have gate: "matchLevel (Entry_lit a (Some 0)) (method_level M_Error) ?w = Inr True"
    if "a = 2 \<or> a = 3" for a
    using that
    by (auto simp: matchLevel_def Entry_lit_def sample_world_def sample_heap_def
        ModuleNameKey_def failing_logger_def level_defs)
  have H: "Hooks (loggers ?w (Logger (Entry_lit a (Some 0)))) (method_level M_Error)
     ((Entry_lit a (Some 0))\<lparr>Time := clock ?w, Level := method_level M_Error,
         Message := method_message M_Error sample_ext [] [VString ''lost'']\<rparr>)
     (fields_heap ?w)
     = (Some ''hook down'', (Entry_lit a (Some 0))\<lparr>Level := ErrorLevel, Message := ''lost''\<rparr>,
        sample_heap)"
    if "a = 2 \<or> a = 3" for a
    using that
    by (auto simp: Entry_lit_def sample_world_def failing_logger_def
        method_message_def is_f_def is_ln_def sample_ext_def)
  have F2: "Formatter (loggers ?w (Logger ((Entry_lit 2 (Some 0))\<lparr>Level := ErrorLevel, Message := ''lost''\<rparr>)))
     ((Entry_lit 2 (Some 0))\<lparr>Level := ErrorLevel, Message := ''lost'', Buffer := Some (next_buffer ?w)\<rparr>)
     sample_heap
     = (Inl ''bad field'', (Entry_lit 2 (Some 0))\<lparr>Level := ErrorLevel, Message := ''lost'', Buffer := Some 0\<rparr>,
        sample_heap)"
    by (simp add: Entry_lit_def sample_world_def failing_logger_def next_buffer_def)
  have F3: "Formatter (loggers ?w (Logger ((Entry_lit 3 (Some 0))\<lparr>Level := ErrorLevel, Message := ''lost''\<rparr>)))
     ((Entry_lit 3 (Some 0))\<lparr>Level := ErrorLevel, Message := ''lost'', Buffer := Some (next_buffer ?w)\<rparr>)
     sample_heap
     = (Inr ''lost'', (Entry_lit 3 (Some 0))\<lparr>Level := ErrorLevel, Message := ''lost'', Buffer := Some 0\<rparr>,
        sample_heap)"
    by (simp add: Entry_lit_def sample_world_def failing_logger_def next_buffer_def)
  have out: "Out (loggers ?w 3) ''lost'' = Some ''disk full''"
    by (simp add: sample_world_def failing_logger_def)
  have l3: "Logger ((Entry_lit 3 (Some 0))\<lparr>Level := ErrorLevel, Message := ''lost'', Buffer := Some 0\<rparr>) = 3"
    by (simp add: Entry_lit_def)
  note c2 = failures_stay_inside[OF gate[of 2] H[of 2] F2]
  note c3 = failures_stay_inside[OF gate[of 3] H[of 3] F3]
  have R2: "fst (call M_Error sample_ext (Entry_lit 2 (Some 0)) [] [VString ''lost''] ?w) = Returned"
    using c2[THEN conjunct1] by (simp add: level_defs)
  have A2: "EvStderr (''Failed to fire hook: '' @ ''hook down'' @ newline)
     \<in> set (new_events ?w (snd (call M_Error sample_ext (Entry_lit 2 (Some 0)) [] [VString ''lost''] ?w)))"
    using c2[THEN conjunct2, THEN conjunct1] by blast
  have B2: "EvStderr (''Failed to obtain reader, '' @ ''bad field'' @ newline)
     \<in> set (new_events ?w (snd (call M_Error sample_ext (Entry_lit 2 (Some 0)) [] [VString ''lost''] ?w)))"
    and C2: "EvWrite 2 ''lost''
     \<notin> set (new_events ?w (snd (call M_Error sample_ext (Entry_lit 2 (Some 0)) [] [VString ''lost''] ?w)))"
    using c2[THEN conjunct2, THEN conjunct2, THEN conjunct1] by blast+
  have R3: "fst (call M_Error sample_ext (Entry_lit 3 (Some 0)) [] [VString ''lost''] ?w) = Returned"
    using c3[THEN conjunct1] by (simp add: level_defs)
  have W3: "EvWrite 3 ''lost''
     \<in> set (new_events ?w (snd (call M_Error sample_ext (Entry_lit 3 (Some 0)) [] [VString ''lost''] ?w)))"
    and E3: "EvStderr (''Failed to write to log, '' @ ''disk full'' @ newline)
     \<in> set (new_events ?w (snd (call M_Error sample_ext (Entry_lit 3 (Some 0)) [] [VString ''lost''] ?w)))"
    using c3[THEN conjunct2, THEN conjunct2, THEN conjunct2] out unfolding l3 by blast+
  show ?thesis
    using gate[of 2] H[of 2] F2 R2 A2 B2 C2 gate[of 3] H[of 3] F3 out R3 W3 E3
    by (intro conjI) simp_all
qed

section \<open>Claim C7: the two cases of \<open>WithError\<close>\<close>

text \<open>
  C7. \<open>WithError\<close> splits on its input in two. For a structured error it builds a fragment
  with the error under the error key, the stack trace the error captured under the
  stack-trace key, the name of the error under the module-name key when the name is not
  empty, and then the attached fields of the error merged in (written after the reserved
  keys). For any other error, the nil error included, the fragment holds the error under the
  error key and, under the stack-trace key, the stack \<^verbatim>\<open>errors.Stack(2)\<close> captures inside the
  call of \<open>WithError\<close>. In both cases the fragment is merged onto the entry as \<open>WithFields\<close>
  does, and the maps that were in the store are unchanged.
\<close>

theorem WithError_case_split:
  assumes "allocated h (Data e)" and "distinct (map fst (range_of (Data e) h))"
    and "distinct (map fst attached)"
  shows "(case WithError x callers e (Some (StructuredError name attached captured)) h of (e', h') \<Rightarrow>
            Logger e' = Logger e \<and> take (length h) h' = h \<and>
            map_of (h' ! length h) =
              (if name = []
               then [ErrorKey \<mapsto> VError (StructuredError name attached captured),
                     StacktraceKey \<mapsto> VString captured]
               else [ErrorKey \<mapsto> VError (StructuredError name attached captured),
                     StacktraceKey \<mapsto> VString captured,
                     ModuleNameKey \<mapsto> VString name]) ++ map_of attached \<and>
            map_of (range_of (Data e') h') = map_of (range_of (Data e) h) ++ map_of (h' ! length h)) \<and>
         (case WithError x callers e (Some (OtherError msg)) h of (e', h') \<Rightarrow>
            Logger e' = Logger e \<and> take (length h) h' = h \<and>
            map_of (h' ! length h) =
              [ErrorKey \<mapsto> VError (OtherError msg),
               StacktraceKey \<mapsto> VString (errors_Stack x 2 (''WithError'' # callers))] \<and>
            map_of (range_of (Data e') h') = map_of (range_of (Data e) h) ++ map_of (h' ! length h)) \<and>
         (case WithError x callers e None h of (e', h') \<Rightarrow>
            Logger e' = Logger e \<and> take (length h) h' = h \<and>
            map_of (h' ! length h) =
              [ErrorKey \<mapsto> VNil,
               StacktraceKey \<mapsto> VString (errors_Stack x 2 (''WithError'' # callers))] \<and>
            map_of (range_of (Data e') h') = map_of (range_of (Data e) h) ++ map_of (h' ! length h))"
proof -
  note s = merge_fragment[OF assms(1,2),
      of "reserved_fields name attached captured @ attached"]
  have part1: "case WithError x callers e (Some (StructuredError name attached captured)) h of (e', h') \<Rightarrow>
            Logger e' = Logger e \<and> take (length h) h' = h \<and>
            map_of (h' ! length h) =
              (if name = []
               then [ErrorKey \<mapsto> VError (StructuredError name attached captured),
                     StacktraceKey \<mapsto> VString captured]
               else [ErrorKey \<mapsto> VError (StructuredError name attached captured),
                     StacktraceKey \<mapsto> VString captured,
                     ModuleNameKey \<mapsto> VString name]) ++ map_of attached \<and>
            map_of (range_of (Data e') h') = map_of (range_of (Data e) h) ++ map_of (h' ! length h)"
    using s(2,3,4) assms(3)
    by (simp add: case_prod_unfold WithError_structured s(1) Entry_lit_def range_of_def
        map_of_rev_distinct reserved_map[symmetric])
  have stack_keys: "map_of (rev [(ErrorKey, v1), (StacktraceKey, v2)]) = [ErrorKey \<mapsto> v1, StacktraceKey \<mapsto> v2]"
    for v1 v2 :: val
    by (auto simp: ErrorKey_def StacktraceKey_def fun_eq_iff)
  have other: "case WithError x callers e err h of (e', h') \<Rightarrow>
            Logger e' = Logger e \<and> take (length h) h' = h \<and>
            map_of (h' ! length h) =
              [ErrorKey \<mapsto> err_val err,
               StacktraceKey \<mapsto> VString (errors_Stack x 2 (''WithError'' # callers))] \<and>
            map_of (range_of (Data e') h') = map_of (range_of (Data e) h) ++ map_of (h' ! length h)"
    if "err = None \<or> err = Some (OtherError msg)" for err
  proof -
    note o = merge_fragment[OF assms(1,2),
        of "[(ErrorKey, err_val err), (StacktraceKey, VString (errors_Stack x 2 (''WithError'' # callers)))]"]
    show ?thesis
      using o unfolding stack_keys
      by (simp add: case_prod_unfold WithError_other[OF that] Entry_lit_def range_of_def)
  qed
  have part2: "case WithError x callers e (Some (OtherError msg)) h of (e', h') \<Rightarrow>
            Logger e' = Logger e \<and> take (length h) h' = h \<and>
            map_of (h' ! length h) =
              [ErrorKey \<mapsto> VError (OtherError msg),
               StacktraceKey \<mapsto> VString (errors_Stack x 2 (''WithError'' # callers))] \<and>
            map_of (range_of (Data e') h') = map_of (range_of (Data e) h) ++ map_of (h' ! length h)"
    using other[of "Some (OtherError msg)"] by (simp add: err_val_def)
  have part3: "case WithError x callers e None h of (e', h') \<Rightarrow>
            Logger e' = Logger e \<and> take (length h) h' = h \<and>
            map_of (h' ! length h) =
              [ErrorKey \<mapsto> VNil,
               StacktraceKey \<mapsto> VString (errors_Stack x 2 (''WithError'' # callers))] \<and>
            map_of (range_of (Data e') h') = map_of (range_of (Data e) h) ++ map_of (h' ! length h)"
    using other[of None] by (simp add: err_val_def)
  show ?thesis
    by (rule conjI[OF part1 conjI[OF part2 part3]])
qed

theorem WithError_case_split_witness:
  "allocated sample_heap (Data sample_entry) \<and>
   distinct (map fst (range_of (Data sample_entry) sample_heap)) \<and>
   distinct (map fst [(''path'', VString ''/tmp'')]) \<and>
   (case WithError sample_ext [''main''] sample_entry
           (Some (StructuredError ''db'' [(''path'', VString ''/tmp'')] ''trace'')) sample_heap of
      (e', h') \<Rightarrow>
        map_of (h' ! length sample_heap) ErrorKey
          = Some (VError (StructuredError ''db'' [(''path'', VString ''/tmp'')] ''trace'')) \<and>
        map_of (h' ! length sample_heap) StacktraceKey = Some (VString ''trace'') \<and>
        map_of (h' ! length sample_heap) ModuleNameKey = Some (VString ''db'') \<and>
        map_of (h' ! length sample_heap) ''path'' = Some (VString ''/tmp'') \<and>
        map_of (range_of (Data e') h') ''path'' = Some (VString ''/tmp'') \<and>
        map_of (range_of (Data e') h') ''a'' = Some (VInt 0) \<and>
        take (length sample_heap) h' = sample_heap)"
proof -
  have hyps: "allocated sample_heap (Data sample_entry)"
    "distinct (map fst (range_of (Data sample_entry) sample_heap))"
    "distinct (map fst [(''path'', VString ''/tmp'')])"
    by (simp_all add: allocated_def sample_heap_def sample_entry_def Entry_lit_def range_of_def)
  have E: "range_of (Data sample_entry) sample_heap = [(''a'', VInt 0), (''n'', VBool True)]"
    by (simp add: sample_heap_def sample_entry_def Entry_lit_def range_of_def)
  note concl = WithError_case_split[OF hyps, where x = sample_ext and callers = "[''main'']"
      and name = "''db''" and captured = "''trace''", THEN conjunct1]
  show ?thesis
    using hyps concl unfolding E
    by (auto simp: ErrorKey_def StacktraceKey_def ModuleNameKey_def map_add_def)
qed

section \<open>Claim C8: the pairs of \<open>With\<close>\<close>

text \<open>
  A run of \<^verbatim>\<open>With("k", 1, 5, true, "x")\<close> on the sample entry: the key \<open>5\<close> is stored in
  its string form, the last key \<open>x\<close> has no value and is stored with nil.
\<close>

lemma With_sample:
  "With sample_ext sample_entry ''k'' (VInt 1) [VInt 5, VBool True, VString ''x''] sample_heap
   = Inr (Entry_lit 0 (Some 3),
          sample_heap @ [[(''k'', VInt 1), (''?'', VBool True), (''x'', VNil)],
                         [(''a'', VInt 0), (''n'', VBool True), (''k'', VInt 1), (''?'', VBool True),
                          (''x'', VNil)]])"
  by code_simp

text \<open>
  C8. For every call \<open>With(key, value, extras...)\<close> on an entry in the store, the call does
  not fail and returns a new entry whose \<open>Data\<close> holds the pairs of the entry, then the
  leading pair, then the extras taken two by two as key and value, each key in its string
  form (a string as it is, any other value as \<^verbatim>\<open>%v\<close> prints it), written in this order, so
  that a later pair wins over an earlier one with the same key; the leading pair is there
  unless an extra key takes its key. When the number of extras is odd, the last key is
  stored with nil: \<open>With("k", v, "x")\<close> adds \<open>k = v\<close> and \<open>x = nil\<close>. The maps that were in
  the store are unchanged.
\<close>

theorem With_pairs:
  assumes "allocated h (Data e)" and "distinct (map fst (range_of (Data e) h))"
  shows "(case With x e key lead extras h of
            Inl p \<Rightarrow> False
          | Inr (e', h') \<Rightarrow>
              Logger e' = Logger e \<and>
              map_of (range_of (Data e') h')
                = map_of (range_of (Data e) h) ++ map_of (rev ((key, lead) # stored_pairs x extras)) \<and>
              take (length h) h' = h \<and>
              (key \<notin> fst ` set (stored_pairs x extras) \<longrightarrow>
                 map_of (range_of (Data e') h') key = Some lead) \<and>
              (odd (length extras) \<longrightarrow>
                 map_of (range_of (Data e') h') (stringify x (last extras)) = Some VNil)) \<and>
         (case With x e ''k'' v [VString ''x''] h of
            Inl p \<Rightarrow> False
          | Inr (e', h') \<Rightarrow>
              map_of (range_of (Data e') h') = (map_of (range_of (Data e) h))(''k'' \<mapsto> v, ''x'' \<mapsto> VNil)) \<and>
         stringify x (VString s) = s \<and>
         (case u of VString s' \<Rightarrow> True | _ \<Rightarrow> stringify x u = fmt_Sprintf_v x u)"
proof -
  have lead_wins: "(E ++ map_of (rev ((key, lead) # ps))) key = Some lead"
    if "key \<notin> fst ` set ps" for E :: "string \<rightharpoonup> val" and ps :: Fields
  proof -
    from that have "map_of (rev ps) key = None"
      by (simp add: map_of_eq_None_iff)
    then show ?thesis
      by (simp add: map_add_def)
  qed
  have last_pair: "(E ++ map_of (rev ((key, lead) # stored_pairs x extras)))
                    (stringify x (last extras)) = Some VNil"
    if "odd (length extras)" for E :: "string \<rightharpoonup> val"
  proof -
    from that have ne: "extras \<noteq> []" by auto
    then have sp: "extras = butlast extras @ [last extras]" by simp
    from that ne have "even (length (butlast extras))" by simp
    then have "extras_pairs (butlast extras @ [last extras])
               = extras_pairs (butlast extras) @ [(last extras, VNil)]"
      by (rule extras_pairs_snoc)
    with sp have "extras_pairs extras = extras_pairs (butlast extras) @ [(last extras, VNil)]"
      by simp
    then show ?thesis
      by (simp add: stored_pairs_def map_add_def)
  qed
  obtain h' where W: "With x e key lead extras h = Inr (Entry_lit (Logger e) (Some (Suc (length h))), h')"
    and M: "map_of (h' ! Suc (length h))
             = map_of (range_of (Data e) h) ++ map_of (rev ((key, lead) # stored_pairs x extras))"
    and T: "take (length h) h' = h"
    using With_result[OF assms] by blast
  have part1: "case With x e key lead extras h of
            Inl p \<Rightarrow> False
          | Inr (e', h') \<Rightarrow>
              Logger e' = Logger e \<and>
              map_of (range_of (Data e') h')
                = map_of (range_of (Data e) h) ++ map_of (rev ((key, lead) # stored_pairs x extras)) \<and>
              take (length h) h' = h \<and>
              (key \<notin> fst ` set (stored_pairs x extras) \<longrightarrow>
                 map_of (range_of (Data e') h') key = Some lead) \<and>
              (odd (length extras) \<longrightarrow>
                 map_of (range_of (Data e') h') (stringify x (last extras)) = Some VNil)"
    using lead_wins[of "stored_pairs x extras" "map_of (range_of (Data e) h)"]
      last_pair[of "map_of (range_of (Data e) h)"]
    by (simp add: W M T Entry_lit_def range_of_def)
  obtain h'' where W2: "With x e ''k'' v [VString ''x''] h
                         = Inr (Entry_lit (Logger e) (Some (Suc (length h))), h'')"
    and M2: "map_of (h'' ! Suc (length h))
             = map_of (range_of (Data e) h) ++ map_of (rev ((''k'', v) # stored_pairs x [VString ''x'']))"
    using With_result[OF assms] by blast
  have "map_of (range_of (Data e) h) ++ map_of (rev ((''k'', v) # stored_pairs x [VString ''x'']))
        = (map_of (range_of (Data e) h))(''k'' \<mapsto> v, ''x'' \<mapsto> VNil)"
    by (auto simp: stored_pairs_def stringify_def map_add_def fun_eq_iff)
  then have part2: "case With x e ''k'' v [VString ''x''] h of
            Inl p \<Rightarrow> False
          | Inr (e', h') \<Rightarrow>
              map_of (range_of (Data e') h') = (map_of (range_of (Data e) h))(''k'' \<mapsto> v, ''x'' \<mapsto> VNil)"
    by (simp add: W2 M2 Entry_lit_def range_of_def)
  have part3: "stringify x (VString s) = s"
    by (simp add: stringify_def)
  have part4: "case u of VString s' \<Rightarrow> True | _ \<Rightarrow> stringify x u = fmt_Sprintf_v x u"
    by (simp add: stringify_def split: val.splits)
  show ?thesis
    by (rule conjI[OF part1 conjI[OF part2 conjI[OF part3 part4]]])
qed


theorem With_pairs_witness:
  "allocated sample_heap (Data sample_entry) \<and>
   distinct (map fst (range_of (Data sample_entry) sample_heap)) \<and>
   (case With sample_ext sample_entry ''k'' (VInt 1) [VInt 5, VBool True, VString ''x''] sample_heap of
      Inl p \<Rightarrow> False
    | Inr (e', h') \<Rightarrow>
        map_of (range_of (Data e') h') ''k'' = Some (VInt 1) \<and>
        map_of (range_of (Data e') h') ''?'' = Some (VBool True) \<and>
        map_of (range_of (Data e') h') ''x'' = Some VNil \<and>
        map_of (range_of (Data e') h') ''a'' = Some (VInt 0) \<and>
        take (length sample_heap) h' = sample_heap)"
proof -
  have hyps: "allocated sample_heap (Data sample_entry)"
    "distinct (map fst (range_of (Data sample_entry) sample_heap))"
    by (simp_all add: allocated_def sample_heap_def sample_entry_def Entry_lit_def range_of_def)
  have E: "range_of (Data sample_entry) sample_heap = [(''a'', VInt 0), (''n'', VBool True)]"
    by (simp add: sample_heap_def sample_entry_def Entry_lit_def range_of_def)
  have P: "stored_pairs sample_ext [VInt 5, VBool True, VString ''x''] = [(''?'', VBool True), (''x'', VNil)]"
    by (simp add: stored_pairs_def stringify_def sample_ext_def)
  note concl = With_pairs[OF hyps, where x = sample_ext and key = "''k''" and lead = "VInt 1"
      and extras = "[VInt 5, VBool True, VString ''x'']", THEN conjunct1]
  show ?thesis
    using hyps concl unfolding E P
    by (auto split: sum.splits)
qed

section \<open>Claim C9: the pooled buffer\<close>

text \<open>
  C9. Every emission returns the buffer it took from the pool, whatever the hooks, the
  formatter and the output do and also when the emission ends in the panic of the Panic
  level: the number of buffers taken and not returned is after the emission what it was
  before, the buffer is returned once, as the last step, after it was taken. The same holds
  for every logging method, and after any number of emissions; a pool with no buffer out has
  no buffer out afterwards.
\<close>

theorem buffer_returned_on_every_path:
  "pool_out (snd (log e lv msg w)) = pool_out w \<and>
   (\<exists>pre. new_events w (snd (log e lv msg w)) = pre @ [EvPut (next_buffer w)] \<and>
          EvGet (next_buffer w) \<in> set pre \<and> EvPut (next_buffer w) \<notin> set pre) \<and>
   pool_out (snd (call m x e format args w)) = pool_out w \<and>
   pool_out (log_all cs w) = pool_out w \<and>
   (pool_out w = 0 \<longrightarrow> pool_out (log_all cs w) = 0)"
proof -
  obtain l1 herr l2 res werr where
    "events (snd (log e lv msg w)) = events w @ emission_events lv l1 herr (next_buffer w) l2 res werr"
    using log_events by blast
  then have "new_events w (snd (log e lv msg w)) = emission_events lv l1 herr (next_buffer w) l2 res werr"
    by (rule new_events_append)
  then have "\<exists>pre. new_events w (snd (log e lv msg w)) = pre @ [EvPut (next_buffer w)] \<and>
          EvGet (next_buffer w) \<in> set pre \<and> EvPut (next_buffer w) \<notin> set pre"
    using emission_events_buffer by simp
  then show ?thesis
    by (simp add: log_pool_out call_pool_out log_all_pool_out)
qed

theorem buffer_returned_on_every_path_witness:
  "pool_out (sample_world sample_heap) = 0 \<and>
   pool_out (log_all [(sample_entry, InfoLevel, ''hi''), (sample_entry, PanicLevel, ''bye'')]
               (sample_world sample_heap)) = 0"
proof -
  have zero: "pool_out (sample_world sample_heap) = 0"
    by (simp add: sample_world_def)
  note concl = buffer_returned_on_every_path[where w = "sample_world sample_heap"
      and cs = "[(sample_entry, InfoLevel, ''hi''), (sample_entry, PanicLevel, ''bye'')]",
      THEN conjunct2, THEN conjunct2, THEN conjunct2, THEN conjunct2]
  from concl zero
  have "pool_out (log_all [(sample_entry, InfoLevel, ''hi''), (sample_entry, PanicLevel, ''bye'')]
                    (sample_world sample_heap)) = 0"
    by (rule mp)
  with zero show ?thesis by simp
qed

section \<open>Claim C10: a module tag that is not a string\<close>

text \<open>
  C10. When the field map of an entry holds under the module-name key a value that is not
  a string, the severity gate fails with the run-time panic of the type assertion, for
  every level, and so does every logging method on that entry: it panics with that error,
  nothing is emitted, and it does not return as a rejected call does. The severity gate
  gives an answer exactly when the entry has no module tag or a string as its tag.
\<close>

theorem non_string_module_panics:
  assumes "module_tag e w = Some v" and "\<forall>s. v \<noteq> VString s"
  shows "matchLevel e lv w = Inl (RuntimeError ''interface conversion: interface {} is not string'') \<and>
         call m x e format args w
           = (Panicked (RuntimeError ''interface conversion: interface {} is not string''),
              emit [EvPanic] w) \<and>
         new_events w (snd (call m x e format args w)) = [EvPanic] \<and>
         \<not> emitted w (call m x e format args w) \<and>
         ((\<exists>ok. matchLevel e' lv' w' = Inr ok) \<longleftrightarrow>
            (module_tag e' w' = None \<or> (\<exists>s. module_tag e' w' = Some (VString s))))"
proof -
  have gate: "matchLevel e lv w = Inl (RuntimeError ''interface conversion: interface {} is not string'')"
    for lv
    using assms by (cases v) (simp_all add: matchLevel_cases)
  have total: "(\<exists>ok. matchLevel e' lv' w' = Inr ok) \<longleftrightarrow>
            (module_tag e' w' = None \<or> (\<exists>s. module_tag e' w' = Some (VString s)))"
    by (auto simp: matchLevel_cases split: option.splits val.splits)
  show ?thesis
    using total
    by (simp add: gate call_gate_error[OF gate] panic_def emit_def new_events_def emitted_def)
qed

theorem non_string_module_panics_witness:
  "module_tag (Entry_lit 0 (Some 3)) (sample_world tagged_heap) = Some (VInt 5) \<and>
   (\<forall>s. VInt 5 \<noteq> VString s) \<and>
   call M_Info sample_ext (Entry_lit 0 (Some 3)) [] [VString ''x''] (sample_world tagged_heap)
     = (Panicked (RuntimeError ''interface conversion: interface {} is not string''),
        emit [EvPanic] (sample_world tagged_heap))"
proof -
  have tag: "module_tag (Entry_lit 0 (Some 3)) (sample_world tagged_heap) = Some (VInt 5)"
    by (simp add: module_tag_def tagged_heap_def sample_world_def Entry_lit_def ModuleNameKey_def)
  have ns: "\<forall>s. VInt 5 \<noteq> VString s"
    by simp
  note concl = non_string_module_panics[OF tag ns, where m = M_Info and x = sample_ext
      and format = "[]" and args = "[VString ''x'']", THEN conjunct2, THEN conjunct1]
  show ?thesis
    by (rule conjI[OF tag conjI[OF ns concl]])
qed

end
